theory Spec2Isabelle
  imports Complex_Main "HOL-Library.Word"
begin

unbundle bit_operations_syntax

text \<open>
  A shallow embedding of the audio layer of the code visualizer: the PCM codec and the
  playback buffer builder (\<open>services/audioUtils\<close>), the live tutor component with its
  gapless playback scheduler and its session lifecycle (\<open>components/LiveTutor.tsx\<close>), and
  the narrator (\<open>services/ttsService.ts\<close>).  The definitions come first, each next to the
  source it models; the properties follow, one section for each part.
\<close>

section \<open>Exceptions\<close>

text \<open>
  The exceptions the modelled TypeScript can raise.  A function that can throw returns
  \<open>error + 'a\<close>, \<open>Inl\<close> being the exception; an event handler that mutates shared state
  returns the state it reached together with the exception that ended it, if any.
\<close>

datatype error =
  TypeError | RangeError | NotSupportedError | InvalidStateError
  | InvalidCharacterError | NetworkError

section \<open>PCM codec (\<open>services/audioUtils\<close>)\<close>

type_synonym byte = "8 word"
type_synonym int16 = "16 word"

text \<open>
  Samples are JavaScript numbers taken from a \<open>Float32Array\<close>.  They are modelled as
  reals: on a (non-NaN) 32-bit float the clamping, the scaling by \<open>0x8000\<close> or \<open>0x7FFF\<close>
  (a 24-bit significand times a 15-bit integer, computed in a double) and the division
  of a 16-bit integer by \<open>32768.0\<close> are all exact, so the real-number functions below
  compute the very values the code computes.

  Storing a number into an \<open>Int16Array\<close> element truncates it toward zero and keeps the
  result modulo \<open>2 ^ 16\<close>, read as two's complement.
\<close>

definition truncToZero :: "real \<Rightarrow> int" where
  "truncToZero x = (if x < 0 then - \<lfloor>- x\<rfloor> else \<lfloor>x\<rfloor>)"

definition toInt16 :: "real \<Rightarrow> int16" where
  "toInt16 x = word_of_int (truncToZero x)"

text \<open>The body of the loop of \<open>float32ToInt16\<close>, for one element.\<close>

definition int16OfSample :: "real \<Rightarrow> int16" where
  "int16OfSample x =
     (let s = max (- 1) (min 1 x)
      in toInt16 (if s < 0 then s * 32768 else s * 32767))"

definition float32ToInt16 :: "real list \<Rightarrow> int16 list" where
  "float32ToInt16 float32 = map int16OfSample float32"

text \<open>
  The \<open>ArrayBuffer\<close> behind an \<open>Int16Array\<close> that spans it: the bytes of the samples, low
  byte first (typed arrays use the platform's byte order, little-endian on every platform
  a browser runs on).
\<close>

fun uint8OfInt16 :: "int16 list \<Rightarrow> byte list" where
  "uint8OfInt16 [] = []"
| "uint8OfInt16 (w # ws) = ucast w # ucast (drop_bit 8 w) # uint8OfInt16 ws"

text \<open>
  A \<open>Uint8Array\<close> is a view of an \<open>ArrayBuffer\<close>: its \<open>buffer\<close> (here \<open>arrayBuffer\<close>), and the
  \<open>byteLength\<close> bytes from \<open>byteOffset\<close> on that are its elements.  The constructors
  \<open>new Uint8Array(len)\<close> and \<open>new Uint8Array(buffer)\<close> make an array that spans its buffer;
  \<open>subarray\<close> and \<open>new Uint8Array(buffer, byteOffset, length)\<close> make one that does not.
\<close>

record uint8_array =
  arrayBuffer :: "byte list"
  byteOffset :: nat
  byteLength :: nat

definition bytesOf :: "uint8_array \<Rightarrow> byte list" where
  "bytesOf a = take (byteLength a) (drop (byteOffset a) (arrayBuffer a))"

definition uint8ArrayOf :: "byte list \<Rightarrow> uint8_array" where
  "uint8ArrayOf bytes = \<lparr>arrayBuffer = bytes, byteOffset = 0, byteLength = length bytes\<rparr>"

text \<open>
  Base64 text is represented by what \<open>atob\<close> makes of it: either it is not valid base64
  (\<open>atob\<close> throws) or it stands for a byte sequence.  \<open>base64Encode\<close> and \<open>base64Decode\<close>
  are the source's loops around \<open>btoa\<close> and \<open>atob\<close>: the first reads the \<open>byteLength\<close>
  elements of its argument, the second fills a \<open>new Uint8Array(len)\<close>.
\<close>

datatype base64 = Malformed | Text "byte list"

definition base64Encode :: "uint8_array \<Rightarrow> base64" where
  "base64Encode bytes = Text (bytesOf bytes)"

definition base64Decode :: "base64 \<Rightarrow> error + uint8_array" where
  "base64Decode b =
     (case b of Malformed \<Rightarrow> Inl InvalidCharacterError | Text bytes \<Rightarrow> Inr (uint8ArrayOf bytes))"

record audio_blob =
  blobData :: base64
  mimeType :: string

definition createAudioBlob :: "real list \<Rightarrow> audio_blob" where
  "createAudioBlob inputData =
     (let int16 = float32ToInt16 inputData;
          uint8 = uint8ArrayOf (uint8OfInt16 int16)
      in \<lparr>blobData = base64Encode uint8, mimeType = ''audio/pcm;rate=16000''\<rparr>)"

section \<open>Playback buffer builder\<close>

text \<open>
  An \<open>AudioContext\<close>: its clock, and the limits of the device behind it.  The Web Audio
  API lets an implementation choose the largest channel count (at least 32) and the range
  of sample rates (at least 8000 to 96000) it supports.
\<close>

record audio_context =
  currentTime :: real
  maxChannelCount :: nat
  minSampleRate :: nat
  maxSampleRate :: nat

record audio_buffer =
  numberOfChannels :: nat
  bufferLength :: nat
  sampleRate :: nat
  channelData :: "real list list"

definition duration :: "audio_buffer \<Rightarrow> real" where
  "duration b = real (bufferLength b) / real (sampleRate b)"

text \<open>
  \<open>ctx.createBuffer(numberOfChannels, length, sampleRate)\<close> throws \<open>NotSupportedError\<close>
  when an argument is zero or outside its nominal range; otherwise the buffer is silent.
\<close>

definition createBuffer :: "audio_context \<Rightarrow> nat \<Rightarrow> nat \<Rightarrow> nat \<Rightarrow> error + audio_buffer" where
  "createBuffer ctx numChannels frameCount rate =
     (if numChannels = 0 \<or> maxChannelCount ctx < numChannels \<or> frameCount = 0
         \<or> rate = 0 \<or> rate < minSampleRate ctx \<or> maxSampleRate ctx < rate
      then Inl NotSupportedError
      else Inr \<lparr>numberOfChannels = numChannels, bufferLength = frameCount, sampleRate = rate,
                channelData = replicate numChannels (replicate frameCount 0)\<rparr>)"

text \<open>
  \<open>new Int16Array(buffer)\<close>: a view of all the bytes of an \<open>ArrayBuffer\<close> as 16-bit samples,
  low byte first.  The constructor throws \<open>RangeError\<close> when the byte length of the buffer
  is not a multiple of 2.
\<close>

fun int16View :: "byte list \<Rightarrow> int16 list" where
  "int16View (lo # hi # bytes) = (push_bit 8 (ucast hi) OR ucast lo) # int16View bytes"
| "int16View _ = []"

definition newInt16Array :: "byte list \<Rightarrow> error + int16 list" where
  "newInt16Array buffer =
     (if odd (length buffer) then Inl RangeError else Inr (int16View buffer))"

text \<open>
  \<open>pcmToAudioBuffer(data, ctx, sampleRate = 24000, numChannels = 1)\<close>.  The samples are
  read from \<open>data.buffer\<close>, the whole buffer behind \<open>data\<close>, whatever \<open>data.byteOffset\<close> and
  \<open>data.byteLength\<close> are.  The source divides
  \<open>dataInt16.length / numChannels\<close> as numbers; \<open>createBuffer\<close> takes an unsigned long and
  drops the fraction (and a division by zero gives 0 frames), the loops write
  \<open>dataInt16[i * numChannels + channel] / 32768.0\<close> to every frame \<open>i\<close> of every channel,
  and a write past the end of a channel is ignored.
\<close>

definition pcmToAudioBuffer ::
  "uint8_array \<Rightarrow> audio_context \<Rightarrow> nat \<Rightarrow> nat \<Rightarrow> error + audio_buffer" where
  "pcmToAudioBuffer data ctx rate numChannels =
     (case newInt16Array (arrayBuffer data) of
        Inl e \<Rightarrow> Inl e
      | Inr dataInt16 \<Rightarrow>
          (case createBuffer ctx numChannels (length dataInt16 div numChannels) rate of
             Inl e \<Rightarrow> Inl e
           | Inr buffer \<Rightarrow>
               Inr (buffer\<lparr>channelData :=
                      map (\<lambda>channel.
                            map (\<lambda>i. real_of_int (sint (dataInt16 ! (i * numChannels + channel))) / 32768)
                              [0..<bufferLength buffer])
                        [0..<numChannels]\<rparr>)))"

text \<open>
  The two lines every consumer of received audio has: \<open>base64Decode\<close> of the payload, then
  \<open>pcmToAudioBuffer(audioData, ctx, 24000)\<close>.
\<close>

definition decodeAudio :: "audio_context \<Rightarrow> base64 \<Rightarrow> error + audio_buffer" where
  "decodeAudio ctx base64Audio =
     (case base64Decode base64Audio of
        Inl e \<Rightarrow> Inl e
      | Inr audioData \<Rightarrow> pcmToAudioBuffer audioData ctx 24000 1)"

text \<open>The device behind \<open>ctx\<close> supports this channel count and this sample rate.\<close>

definition supports :: "audio_context \<Rightarrow> nat \<Rightarrow> nat \<Rightarrow> bool" where
  "supports ctx numChannels rate \<longleftrightarrow>
     0 < numChannels \<and> numChannels \<le> maxChannelCount ctx \<and>
     0 < rate \<and> minSampleRate ctx \<le> rate \<and> rate \<le> maxSampleRate ctx"

text \<open>A context with the smallest limits the Web Audio API allows, for examples.\<close>

definition exampleContext :: audio_context where
  "exampleContext =
     \<lparr>currentTime = 0, maxChannelCount = 32, minSampleRate = 8000, maxSampleRate = 96000\<rparr>"

section \<open>The live tutor component (\<open>components/LiveTutor.tsx\<close>)\<close>

text \<open>
  JavaScript runs one task at a time, so each callback of the component is a function
  from the state before it to the state after it.  A callback that can throw returns
  the exception together with the state it had reached: what it had already written
  stays written.
\<close>

type_synonym 's outcome = "error option \<times> 's"

definition andThen :: "'s outcome \<Rightarrow> ('s \<Rightarrow> 's outcome) \<Rightarrow> 's outcome" where
  "andThen r f = (case fst r of None \<Rightarrow> f (snd r) | Some e \<Rightarrow> r)"

text \<open>\<open>try { ... } catch (e) {}\<close>: the exception is dropped, the writes stay.\<close>

definition tryIgnore :: "'s outcome \<Rightarrow> 's outcome" where
  "tryIgnore r = (None, snd r)"

text \<open>\<open>try { ... } finally { f }\<close>, for an \<open>f\<close> that cannot throw.\<close>

definition tryFinally :: "'s outcome \<Rightarrow> ('s \<Rightarrow> 's) \<Rightarrow> 's outcome" where
  "tryFinally r f = (fst r, f (snd r))"

text \<open>
  The objects of the platform live in stores indexed by their identity, a number taken
  from the counter \<open>fresh\<close> when the object is created: audio contexts, the
  \<open>AudioBufferSourceNode\<close>s that play one buffer each, and media streams.  A set holds the
  nodes of the capture graph that are connected, another the interval timers that run.
\<close>

record source_node =
  buffer :: audio_buffer
  startTime :: "real option"
  stopped :: bool

datatype device = Microphone | Display

record media_stream =
  device :: device
  live :: bool

record video_element =
  srcObject :: "nat option"

record server_message =
  inlineAudio :: "base64 option"
  interrupted :: bool

record live_state =
  isActive :: bool
  isConnecting :: bool
  isScreenSharing :: bool
  isSharingLoading :: bool
  inputContextRef :: "nat option"
  outputContextRef :: "nat option"
  inputSourceRef :: "nat option"
  processorRef :: "nat option"
  nextStartTimeRef :: real
  activeSourcesRef :: "nat list"
  videoRef :: "video_element option"
  screenStreamRef :: "nat option"
  screenIntervalRef :: "nat option"
  sessionRef :: "nat option"
  contexts :: "nat \<Rightarrow> audio_context"
  closedContexts :: "nat set"
  sourceNodes :: "nat \<Rightarrow> source_node"
  streams :: "nat \<Rightarrow> media_stream"
  connectedNodes :: "nat set"
  intervals :: "nat set"
  fresh :: nat

text \<open>
  In \<open>server_message\<close>, \<open>inlineAudio\<close> is
  \<open>message.serverContent?.modelTurn?.parts?.[0]?.inlineData?.data\<close>, \<open>None\<close> when it is
  missing or the empty string, and \<open>interrupted\<close> is the truth value of
  \<open>message.serverContent?.interrupted\<close>.  \<open>activeSourcesRef\<close> is a JavaScript \<open>Set\<close>: a list
  without repetitions, in insertion order, which is the order \<open>forEach\<close> visits.  The
  \<open>volume\<close> state only drives the level meter and is left out.
\<close>

definition setAdd :: "nat \<Rightarrow> nat list \<Rightarrow> nat list" where
  "setAdd x xs = (if x \<in> set xs then xs else xs @ [x])"

definition setDelete :: "nat \<Rightarrow> nat list \<Rightarrow> nat list" where
  "setDelete x xs = filter (\<lambda>y. y \<noteq> x) xs"

subsection \<open>Screen sharing teardown\<close>

text \<open>
  Calling a method of \<open>null\<close> throws \<open>TypeError\<close>.  The operations below are the calls the
  teardown makes on what a ref holds: \<open>clearInterval\<close> is a function and takes anything,
  the others are methods of the object.
\<close>

definition clearIntervalOf :: "nat option \<Rightarrow> live_state \<Rightarrow> live_state outcome" where
  "clearIntervalOf ref s =
     (case ref of
        None \<Rightarrow> (None, s)
      | Some timer \<Rightarrow> (None, s\<lparr>intervals := intervals s - {timer}\<rparr>))"

definition stopTracksOf :: "nat option \<Rightarrow> live_state \<Rightarrow> live_state outcome" where
  "stopTracksOf ref s =
     (case ref of
        None \<Rightarrow> (Some TypeError, s)
      | Some stream \<Rightarrow> (None, s\<lparr>streams := (streams s)(stream := (streams s stream)\<lparr>live := False\<rparr>)\<rparr>))"

text \<open>
  The guarded blocks of the teardown all have one shape,
  \<open>if (ref.current) { method(ref.current); ref.current = null; }\<close>, and run one after the
  other.
\<close>

definition release ::
  "(live_state \<Rightarrow> nat option) \<Rightarrow> (nat option \<Rightarrow> live_state \<Rightarrow> live_state outcome) \<Rightarrow>
   (live_state \<Rightarrow> live_state) \<Rightarrow> live_state \<Rightarrow> live_state outcome" where
  "release ref method setNull s =
     (if ref s \<noteq> None then andThen (method (ref s) s) (\<lambda>s'. (None, setNull s')) else (None, s))"

fun sequence :: "(live_state \<Rightarrow> live_state outcome) list \<Rightarrow> live_state \<Rightarrow> live_state outcome" where
  "sequence [] s = (None, s)"
| "sequence (f # fs) s = andThen (f s) (sequence fs)"

definition clearVideo :: "live_state \<Rightarrow> live_state outcome" where
  "clearVideo s =
     (case videoRef s of
        Some video \<Rightarrow> (None, s\<lparr>videoRef := Some (video\<lparr>srcObject := None\<rparr>)\<rparr>)
      | None \<Rightarrow> (None, s))"

definition stopScreenShare :: "live_state \<Rightarrow> live_state outcome" where
  "stopScreenShare =
     sequence
       [release screenIntervalRef clearIntervalOf (\<lambda>s. s\<lparr>screenIntervalRef := None\<rparr>),
        release screenStreamRef stopTracksOf (\<lambda>s. s\<lparr>screenStreamRef := None\<rparr>),
        clearVideo,
        (\<lambda>s. (None, s\<lparr>isScreenSharing := False, isSharingLoading := False\<rparr>))]"

subsection \<open>Session teardown\<close>

definition closeContextOf :: "nat option \<Rightarrow> live_state \<Rightarrow> live_state outcome" where
  "closeContextOf ref s =
     (case ref of
        None \<Rightarrow> (Some TypeError, s)
      | Some ctx \<Rightarrow> (None, s\<lparr>closedContexts := insert ctx (closedContexts s)\<rparr>))"

definition disconnectOf :: "nat option \<Rightarrow> live_state \<Rightarrow> live_state outcome" where
  "disconnectOf ref s =
     (case ref of
        None \<Rightarrow> (Some TypeError, s)
      | Some node \<Rightarrow> (None, s\<lparr>connectedNodes := connectedNodes s - {node}\<rparr>))"

text \<open>
  \<open>source.stop()\<close> throws \<open>InvalidStateError\<close> on a node whose \<open>start\<close> has not been called;
  otherwise it ends the playback of the node.
\<close>

definition stopSource :: "nat \<Rightarrow> live_state \<Rightarrow> live_state outcome" where
  "stopSource source s =
     (case startTime (sourceNodes s source) of
        None \<Rightarrow> (Some InvalidStateError, s)
      | Some when \<Rightarrow>
          (None, s\<lparr>sourceNodes := (sourceNodes s)(source := (sourceNodes s source)\<lparr>stopped := True\<rparr>)\<rparr>))"

text \<open>\<open>set.forEach(f)\<close>: the elements in order, until one throws.\<close>

fun forEach :: "(nat \<Rightarrow> live_state \<Rightarrow> live_state outcome) \<Rightarrow> nat list \<Rightarrow> live_state \<Rightarrow> live_state outcome" where
  "forEach f [] s = (None, s)"
| "forEach f (x # xs) s = andThen (f x s) (forEach f xs)"

definition stopAllPlaying :: "live_state \<Rightarrow> live_state outcome" where
  "stopAllPlaying s =
     andThen (forEach (\<lambda>source s'. tryIgnore (stopSource source s')) (activeSourcesRef s) s)
       (\<lambda>s'. (None, s'\<lparr>activeSourcesRef := []\<rparr>))"

definition stopSession :: "live_state \<Rightarrow> live_state outcome" where
  "stopSession =
     sequence
       [stopScreenShare,
        release inputContextRef closeContextOf (\<lambda>s. s\<lparr>inputContextRef := None\<rparr>),
        release outputContextRef closeContextOf (\<lambda>s. s\<lparr>outputContextRef := None\<rparr>),
        release processorRef disconnectOf (\<lambda>s. s\<lparr>processorRef := None\<rparr>),
        release inputSourceRef disconnectOf (\<lambda>s. s\<lparr>inputSourceRef := None\<rparr>),
        stopAllPlaying,
        (\<lambda>s. (None, s\<lparr>isActive := False, isConnecting := False, sessionRef := None\<rparr>))]"

subsection \<open>Session start\<close>

text \<open>
  \<open>startSession\<close> runs up to its \<open>await\<close> of \<open>getUserMedia\<close>, and resumes in a later task
  with the stream or with the rejection.  The microphone stream is a local variable of
  \<open>startSession\<close>; only the source node made from it is kept in a ref.  The two
  \<open>AudioContext\<close>s are made by the platform: the constructor gives a context (with its
  clock and limits) or throws.  Whatever is thrown inside the \<open>try\<close> ends in
  \<open>stopSession\<close>.
\<close>

definition startSession :: "bool \<Rightarrow> live_state \<Rightarrow> live_state" where
  "startSession hasApiKey s = (if \<not> hasApiKey then s else s\<lparr>isConnecting := True\<rparr>)"

datatype user_media = Granted | Denied

definition startSessionResume ::
  "user_media \<Rightarrow> error + audio_context \<Rightarrow> error + audio_context \<Rightarrow> live_state \<Rightarrow> live_state outcome" where
  "startSessionResume media newInput newOutput s0 =
     (case media of
        Denied \<Rightarrow> stopSession s0
      | Granted \<Rightarrow>
          (let stream = fresh s0;
               s1 = s0\<lparr>streams := (streams s0)(stream := \<lparr>device = Microphone, live = True\<rparr>),
                       fresh := fresh s0 + 1\<rparr>
           in case newInput of
                Inl e \<Rightarrow> stopSession s1
              | Inr inputCtxObject \<Rightarrow>
                  (let inputCtx = fresh s1;
                       s2 = s1\<lparr>contexts := (contexts s1)(inputCtx := inputCtxObject),
                               fresh := fresh s1 + 1, inputContextRef := Some inputCtx\<rparr>
                   in case newOutput of
                        Inl e \<Rightarrow> stopSession s2
                      | Inr outputCtxObject \<Rightarrow>
                          (let outputCtx = fresh s2;
                               source = fresh s2 + 1;
                               processor = fresh s2 + 2;
                               sessionPromise = fresh s2 + 3
                           in (None,
                               s2\<lparr>contexts := (contexts s2)(outputCtx := outputCtxObject),
                                   outputContextRef := Some outputCtx,
                                   nextStartTimeRef := currentTime outputCtxObject,
                                   inputSourceRef := Some source,
                                   processorRef := Some processor,
                                   connectedNodes := insert processor (insert source (connectedNodes s2)),
                                   sessionRef := Some sessionPromise,
                                   fresh := fresh s2 + 4\<rparr>)))))"

text \<open>The callbacks of the session: \<open>onopen\<close>; \<open>onclose\<close> and \<open>onerror\<close> are \<open>stopSession\<close>.\<close>

definition onopen :: "live_state \<Rightarrow> live_state" where
  "onopen s = s\<lparr>isActive := True, isConnecting := False\<rparr>"

definition toggleSession :: "bool \<Rightarrow> live_state \<Rightarrow> live_state outcome" where
  "toggleSession hasApiKey s =
     (if isActive s \<or> isConnecting s then stopSession s else (None, startSession hasApiKey s))"

subsection \<open>Gapless playback scheduler: the \<open>onmessage\<close> callback\<close>

text \<open>
  The first block of \<open>onmessage\<close>: decode the audio of the message and schedule it.
  Decoding can throw, and then the callback ends there.  \<open>source.start(when)\<close> is called on
  a node that has just been made, with a time that is at least the clock of the context,
  which is never negative, so it cannot throw.  Times are JavaScript numbers, modelled
  as reals.
\<close>

definition onmessageAudio :: "server_message \<Rightarrow> live_state \<Rightarrow> live_state outcome" where
  "onmessageAudio message s =
     (case (inlineAudio message, outputContextRef s) of
        (Some base64Audio, Some ctx) \<Rightarrow>
          (case decodeAudio (contexts s ctx) base64Audio of
             Inl e \<Rightarrow> (Some e, s)
           | Inr audioBuffer \<Rightarrow>
               (let source = fresh s;
                    now = currentTime (contexts s ctx);
                    start = (if nextStartTimeRef s < now then now else nextStartTimeRef s)
                in (None,
                    s\<lparr>sourceNodes := (sourceNodes s)
                          (source := \<lparr>buffer = audioBuffer, startTime = Some start, stopped = False\<rparr>),
                       fresh := fresh s + 1,
                       nextStartTimeRef := start + duration audioBuffer,
                       activeSourcesRef := setAdd source (activeSourcesRef s)\<rparr>)))
      | _ \<Rightarrow> (None, s))"

text \<open>The second block: the interruption.  Here \<open>s.stop()\<close> is not inside a \<open>try\<close>.\<close>

definition onmessageInterrupted :: "server_message \<Rightarrow> live_state \<Rightarrow> live_state outcome" where
  "onmessageInterrupted message s0 =
     (if interrupted message
      then andThen (forEach stopSource (activeSourcesRef s0) s0)
             (\<lambda>s1.
                (let s2 = s1\<lparr>activeSourcesRef := []\<rparr>
                 in case outputContextRef s2 of
                      Some ctx \<Rightarrow> (None, s2\<lparr>nextStartTimeRef := currentTime (contexts s2 ctx)\<rparr>)
                    | None \<Rightarrow> (None, s2)))
      else (None, s0))"

definition onmessage :: "server_message \<Rightarrow> live_state \<Rightarrow> live_state outcome" where
  "onmessage message s = andThen (onmessageAudio message s) (onmessageInterrupted message)"

text \<open>\<open>source.onended\<close>, set when the source is scheduled.\<close>

definition onended :: "nat \<Rightarrow> live_state \<Rightarrow> live_state" where
  "onended source s = s\<lparr>activeSourcesRef := setDelete source (activeSourcesRef s)\<rparr>"

subsection \<open>Screen sharing start\<close>

text \<open>
  \<open>startScreenShare\<close> up to its \<open>await\<close> of \<open>getDisplayMedia\<close> (\<open>supported\<close>: the browser has
  \<open>getDisplayMedia\<close>), and its resumption.  \<open>hasVideoTrack\<close> says whether
  \<open>stream.getVideoTracks()[0]\<close> exists; setting \<open>onended\<close> on \<open>undefined\<close> throws, and the
  \<open>catch\<close> block runs \<open>stopScreenShare\<close>.
\<close>

definition startScreenShare :: "bool \<Rightarrow> live_state \<Rightarrow> live_state" where
  "startScreenShare supported s =
     (if \<not> isActive s then s
      else if \<not> supported then s
      else s\<lparr>isSharingLoading := True\<rparr>)"

definition startScreenShareResume :: "user_media \<Rightarrow> bool \<Rightarrow> live_state \<Rightarrow> live_state outcome" where
  "startScreenShareResume media hasVideoTrack s0 =
     tryFinally
       (case media of
          Denied \<Rightarrow> stopScreenShare s0
        | Granted \<Rightarrow>
            (let stream = fresh s0;
                 s1 = s0\<lparr>streams := (streams s0)(stream := \<lparr>device = Display, live = True\<rparr>),
                         fresh := fresh s0 + 1, screenStreamRef := Some stream\<rparr>;
                 s2 = (case videoRef s1 of
                         Some video \<Rightarrow> s1\<lparr>videoRef := Some (video\<lparr>srcObject := Some stream\<rparr>)\<rparr>
                       | None \<Rightarrow> s1);
                 s3 = s2\<lparr>isScreenSharing := True\<rparr>
             in if \<not> hasVideoTrack then stopScreenShare s3
                else (let timer = fresh s3
                      in (None, s3\<lparr>intervals := insert timer (intervals s3),
                                   screenIntervalRef := Some timer, fresh := fresh s3 + 1\<rparr>))))
       (\<lambda>s. s\<lparr>isSharingLoading := False\<rparr>)"

subsection \<open>The callbacks of the component\<close>

text \<open>
  Everything that runs in the component and writes its state: the clicks, the resumed
  \<open>await\<close>s, the callbacks of the session, of the playing sources and of the shared track,
  and the unmount.  The clocks of the contexts are advanced by the platform between
  tasks (\<open>Clock\<close>).  The capture callback \<open>onaudioprocess\<close> and the frame timer only send
  data to the session and write no state modelled here.
\<close>

datatype event =
    ToggleSession bool
  | UserMedia user_media "error + audio_context" "error + audio_context"
  | Open
  | ServerMessage server_message
  | Closed
  | Failed
  | SourceEnded nat
  | StartScreenShare bool
  | DisplayMedia user_media bool
  | StopScreenShare
  | TrackEnded
  | Unmount
  | Clock nat real

fun step :: "event \<Rightarrow> live_state \<Rightarrow> live_state outcome" where
  "step (ToggleSession hasApiKey) s = toggleSession hasApiKey s"
| "step (UserMedia media newInput newOutput) s = startSessionResume media newInput newOutput s"
| "step Open s = (None, onopen s)"
| "step (ServerMessage message) s = onmessage message s"
| "step Closed s = stopSession s"
| "step Failed s = stopSession s"
| "step (SourceEnded source) s = (None, onended source s)"
| "step (StartScreenShare supported) s = (None, startScreenShare supported s)"
| "step (DisplayMedia media hasVideoTrack) s = startScreenShareResume media hasVideoTrack s"
| "step StopScreenShare s = stopScreenShare s"
| "step TrackEnded s = stopScreenShare s"
| "step Unmount s = stopSession s"
| "step (Clock ctx t) s =
     (None, s\<lparr>contexts := (contexts s)(ctx := (contexts s ctx)\<lparr>currentTime := max t (currentTime (contexts s ctx))\<rparr>)\<rparr>)"

text \<open>The state of the component when it is mounted, and a run of callbacks.\<close>

definition initialState :: live_state where
  "initialState =
     \<lparr>isActive = False, isConnecting = False, isScreenSharing = False, isSharingLoading = False,
      inputContextRef = None, outputContextRef = None, inputSourceRef = None,
      processorRef = None, nextStartTimeRef = 0, activeSourcesRef = [],
      videoRef = Some \<lparr>srcObject = None\<rparr>, screenStreamRef = None, screenIntervalRef = None,
      sessionRef = None,
      contexts = (\<lambda>_. exampleContext), closedContexts = {},
      sourceNodes = (\<lambda>_. \<lparr>buffer = \<lparr>numberOfChannels = 1, bufferLength = 1, sampleRate = 24000,
                                       channelData = [[0]]\<rparr>,
                            startTime = None, stopped = False\<rparr>),
      streams = (\<lambda>_. \<lparr>device = Microphone, live = False\<rparr>),
      connectedNodes = {}, intervals = {}, fresh = 0\<rparr>"

fun run :: "event list \<Rightarrow> live_state \<Rightarrow> live_state" where
  "run [] s = s"
| "run (e # es) s = run es (snd (step e s))"

text \<open>The callbacks that neither schedule nor stop anything: clock ticks and ended sources.\<close>

fun quiet :: "event \<Rightarrow> bool" where
  "quiet (Clock ctx t) = True"
| "quiet (SourceEnded source) = True"
| "quiet e = False"

text \<open>Every source in the active set has been started.\<close>

definition activeStarted :: "live_state \<Rightarrow> bool" where
  "activeStarted s \<longleftrightarrow> list_all (\<lambda>source. startTime (sourceNodes s source) \<noteq> None) (activeSourcesRef s)"

section \<open>The narrator (\<open>services/ttsService.ts\<close>)\<close>

text \<open>
  The module has three variables: the lazily created audio context, the source that is
  playing, and \<open>currentPlaybackId\<close>, the token of the latest request.  \<open>playTTS\<close> is an
  \<open>async\<close> function: a call runs to its \<open>await\<close> of the synthesis request, resumes when the
  request settles, and, if it started a source, is resolved by the \<open>onended\<close> callback of
  that source.  Each call is numbered in the order of the calls; the store \<open>calls\<close> says
  where each call stands and how its promise was resolved.  A call starts at most one
  source, so a source is named by its call.  \<open>requests\<close> lists the synthesis requests that
  were sent, \<open>stoppedSources\<close> the sources on which \<open>stop\<close> was called.
\<close>

datatype call_phase = NotCalled | Fetching nat | Playing nat | Resolved bool

record tts_state =
  audioContext :: "audio_context option"
  currentSource :: "nat option"
  currentPlaybackId :: nat
  calls :: "nat \<Rightarrow> call_phase"
  nextCall :: nat
  requests :: "(nat \<times> string) list"
  stoppedSources :: "nat set"

text \<open>\<open>getApiKey\<close> (\<open>utils/apiKey\<close>): the stored key, else the key of the environment.\<close>

definition getApiKey :: "string option \<Rightarrow> string option \<Rightarrow> string option" where
  "getApiKey stored envKey =
     (if stored \<noteq> None \<and> stored \<noteq> Some [] then stored
      else if envKey \<noteq> None \<and> envKey \<noteq> Some [] then envKey
      else None)"

text \<open>
  \<open>stopTTS\<close>.  \<open>stop\<close> and \<open>disconnect\<close> are inside a \<open>try\<close> whose \<open>catch\<close> is empty.
\<close>

definition stopTTS :: "tts_state \<Rightarrow> tts_state" where
  "stopTTS s0 =
     (let s1 = s0\<lparr>currentPlaybackId := currentPlaybackId s0 + 1\<rparr>
      in case currentSource s1 of
           Some source \<Rightarrow>
             s1\<lparr>stoppedSources := insert source (stoppedSources s1), currentSource := None\<rparr>
         | None \<Rightarrow> s1)"

text \<open>
  \<open>playTTS\<close> up to its \<open>await\<close>.  \<open>apiKey\<close> is what \<open>getApiKey()\<close> returned; \<open>!apiKey\<close> holds for
  \<open>undefined\<close> and for the empty string, \<open>!text\<close> for the empty string.  A call that returns
  here is resolved at once.
\<close>

definition playTTS :: "string option \<Rightarrow> string \<Rightarrow> tts_state \<Rightarrow> tts_state" where
  "playTTS apiKey text s0 =
     (let call = nextCall s0;
          s1 = s0\<lparr>nextCall := nextCall s0 + 1\<rparr>
      in if apiKey = None \<or> apiKey = Some [] then s1\<lparr>calls := (calls s1)(call := Resolved True)\<rparr>
         else if text = [] then s1\<lparr>calls := (calls s1)(call := Resolved True)\<rparr>
         else
           (let myPlaybackId = currentPlaybackId s1 + 1;
                s2 = s1\<lparr>currentPlaybackId := myPlaybackId\<rparr>;
                s3 = (case currentSource s2 of
                        Some source \<Rightarrow>
                          s2\<lparr>stoppedSources := insert source (stoppedSources s2),
                             currentSource := None\<rparr>
                      | None \<Rightarrow> s2)
            in s3\<lparr>requests := requests s3 @ [(call, text)],
                  calls := (calls s3)(call := Fetching myPlaybackId)\<rparr>))"

text \<open>
  \<open>getAudioContext\<close>: the context of the module, made on first use.  The constructor is
  the platform's and can throw; \<open>newContext\<close> is what it gives.
\<close>

definition getAudioContext ::
  "error + audio_context \<Rightarrow> tts_state \<Rightarrow> error + audio_context \<times> tts_state" where
  "getAudioContext newContext s =
     (case audioContext s of
        Some ctx \<Rightarrow> Inr (ctx, s)
      | None \<Rightarrow>
          (case newContext of
             Inl e \<Rightarrow> Inl e
           | Inr ctx \<Rightarrow> Inr (ctx, s\<lparr>audioContext := Some ctx\<rparr>)))"

text \<open>
  The synthesis request settles: it is rejected, or it is answered with
  \<open>response.candidates?.[0]?.content?.parts?.[0]?.inlineData?.data\<close> (\<open>None\<close> when that is
  missing or empty).  \<open>playTTSResume\<close> is the rest of the \<open>try\<close> block and the \<open>catch\<close> block of
  the call: the \<open>catch\<close> block resolves the call with \<open>myPlaybackId === currentPlaybackId\<close>.
\<close>

datatype synthesis = Rejected | Answered "base64 option"

definition playTTSResume ::
  "nat \<Rightarrow> synthesis \<Rightarrow> error + audio_context \<Rightarrow> tts_state \<Rightarrow> tts_state" where
  "playTTSResume call response newContext s =
     (case calls s call of
        Fetching myPlaybackId \<Rightarrow>
          (let resolve = (\<lambda>result s'. s'\<lparr>calls := (calls s')(call := Resolved result)\<rparr>);
               catch = (\<lambda>s'. resolve (myPlaybackId = currentPlaybackId s') s')
           in case response of
                Rejected \<Rightarrow> catch s
              | Answered base64Audio \<Rightarrow>
                  if myPlaybackId \<noteq> currentPlaybackId s then resolve False s
                  else
                    (case base64Audio of
                       None \<Rightarrow> resolve True s
                     | Some audio \<Rightarrow>
                         (case getAudioContext newContext s of
                            Inl e \<Rightarrow> catch s
                          | Inr (ctx, s1) \<Rightarrow>
                              (case decodeAudio ctx audio of
                                 Inl e \<Rightarrow> catch s1
                               | Inr audioBuffer \<Rightarrow>
                                   if myPlaybackId \<noteq> currentPlaybackId s1 then resolve False s1
                                   else s1\<lparr>currentSource := Some call,
                                           calls := (calls s1)(call := Playing myPlaybackId)\<rparr>))))
      | _ \<Rightarrow> s)"

text \<open>\<open>source.onended\<close> of the source a call started; it fires after \<open>stop\<close> as well.\<close>

definition playTTSEnded :: "nat \<Rightarrow> tts_state \<Rightarrow> tts_state" where
  "playTTSEnded call s =
     (case calls s call of
        Playing myPlaybackId \<Rightarrow>
          if currentPlaybackId s = myPlaybackId
          then s\<lparr>currentSource := None, calls := (calls s)(call := Resolved True)\<rparr>
          else s\<lparr>calls := (calls s)(call := Resolved False)\<rparr>
      | _ \<Rightarrow> s)"

text \<open>What can happen to the module, and a run of such events.\<close>

datatype tts_event =
    PlayTTS "string option" string
  | StopTTS
  | Settled nat synthesis "error + audio_context"
  | PlaybackEnded nat

fun ttsStep :: "tts_event \<Rightarrow> tts_state \<Rightarrow> tts_state" where
  "ttsStep (PlayTTS apiKey text) s = playTTS apiKey text s"
| "ttsStep StopTTS s = stopTTS s"
| "ttsStep (Settled call response newContext) s = playTTSResume call response newContext s"
| "ttsStep (PlaybackEnded call) s = playTTSEnded call s"

fun ttsRun :: "tts_event list \<Rightarrow> tts_state \<Rightarrow> tts_state" where
  "ttsRun [] s = s"
| "ttsRun (e # es) s = ttsRun es (ttsStep e s)"

text \<open>An event is about a call when it resumes or ends that call.\<close>

fun about :: "nat \<Rightarrow> tts_event \<Rightarrow> bool" where
  "about call (Settled call' response newContext) = (call' = call)"
| "about call (PlaybackEnded call') = (call' = call)"
| "about call e = False"

text \<open>An event supersedes the requests in flight when it is \<open>stopTTS\<close> or a \<open>playTTS\<close> with a key and a text.\<close>

fun supersedes :: "tts_event \<Rightarrow> bool" where
  "supersedes StopTTS = True"
| "supersedes (PlayTTS apiKey text) = (apiKey \<noteq> None \<and> apiKey \<noteq> Some [] \<and> text \<noteq> [])"
| "supersedes e = False"

text \<open>The audio of an answer can be played: a context is there or can be made, and the audio decodes.\<close>

definition playable :: "tts_state \<Rightarrow> error + audio_context \<Rightarrow> base64 \<Rightarrow> bool" where
  "playable s newContext audio =
     (case getAudioContext newContext s of
        Inl e \<Rightarrow> False
      | Inr (ctx, s') \<Rightarrow> (case decodeAudio ctx audio of Inl e \<Rightarrow> False | Inr audioBuffer \<Rightarrow> True))"

text \<open>The module when it is loaded.\<close>

definition ttsInitial :: tts_state where
  "ttsInitial =
     \<lparr>audioContext = None, currentSource = None, currentPlaybackId = 0,
      calls = (\<lambda>_. NotCalled), nextCall = 0, requests = [], stoppedSources = {}\<rparr>"

section \<open>Vocabulary of the properties, and example inputs\<close>

text \<open>
  All resource handles of the component are null: the two audio contexts, the processor,
  the input source, the screen stream, the screen timer and the session; and the set of
  playing sources is empty.
\<close>

definition released :: "live_state \<Rightarrow> bool" where
  "released s \<longleftrightarrow>
     inputContextRef s = None \<and> outputContextRef s = None \<and> processorRef s = None \<and>
     inputSourceRef s = None \<and> screenStreamRef s = None \<and> screenIntervalRef s = None \<and>
     sessionRef s = None \<and> activeSourcesRef s = []"

text \<open>From a state with \<open>P\<close>, the callback \<open>f\<close> ends without an exception in a state with \<open>Q\<close>.\<close>

definition triple ::
  "(live_state \<Rightarrow> bool) \<Rightarrow> (live_state \<Rightarrow> live_state outcome) \<Rightarrow> (live_state \<Rightarrow> bool) \<Rightarrow> bool" where
  "triple P f Q \<longleftrightarrow> (\<forall>s. P s \<longrightarrow> fst (f s) = None \<and> Q (snd (f s)))"

text \<open>
  Two states agree on what the scheduler writes: the next start time, the sources and the
  active set.
\<close>

definition sameSchedule :: "live_state \<Rightarrow> live_state \<Rightarrow> bool" where
  "sameSchedule s s' \<longleftrightarrow>
     nextStartTimeRef s' = nextStartTimeRef s \<and> sourceNodes s' = sourceNodes s \<and>
     activeSourcesRef s' = activeSourcesRef s"

text \<open>
  An array spans its buffer: it starts at the first byte of the buffer and ends at the
  last.
\<close>

definition spansBuffer :: "uint8_array \<Rightarrow> bool" where
  "spansBuffer data \<longleftrightarrow> byteOffset data = 0 \<and> byteLength data = length (arrayBuffer data)"

text \<open>
  Example inputs of the builder: the two bytes in the middle of a buffer of six
  (\<open>new Uint8Array([1, 2, 3, 4, 5, 6]).subarray(2, 4)\<close>), and the first three bytes of a
  buffer that holds the two-sample chunk.
\<close>

definition middleView :: uint8_array where
  "middleView = \<lparr>arrayBuffer = [1, 2, 3, 4, 5, 6], byteOffset = 2, byteLength = 2\<rparr>"

definition oddView :: uint8_array where
  "oddView = \<lparr>arrayBuffer = [0, 0, 0, 64], byteOffset = 0, byteLength = 3\<rparr>"

text \<open>Example inputs: a session that has started and received one chunk of two samples.\<close>

definition chunk :: server_message where
  "chunk = \<lparr>inlineAudio = Some (Text [0, 0, 0, 64]), interrupted = False\<rparr>"

definition bargeIn :: server_message where
  "bargeIn = \<lparr>inlineAudio = None, interrupted = True\<rparr>"

definition sessionStarted :: "event list" where
  "sessionStarted =
     [ToggleSession True, UserMedia Granted (Inr exampleContext) (Inr exampleContext), Open]"

definition chunkBuffer :: audio_buffer where
  "chunkBuffer =
     \<lparr>numberOfChannels = 1, bufferLength = 2, sampleRate = 24000, channelData = [[0, 1 / 2]]\<rparr>"

definition firstChunkPlaying :: "event list" where
  "firstChunkPlaying = sessionStarted @ [Clock 2 (1 / 2), ServerMessage chunk]"



definition listening :: "event list" where
  "listening = sessionStarted @ [Clock 2 (1 / 2)]"

definition restart :: "event list" where
  "restart = firstChunkPlaying @ [ToggleSession True, ToggleSession True]"

definition sharedThenStopped :: "event list" where
  "sharedThenStopped =
     sessionStarted @ [StartScreenShare True, DisplayMedia Granted True, ToggleSession True]"

text \<open>Example inputs of the narrator: a key, and an answer that carries the two-sample chunk.\<close>

definition someKey :: "string option" where
  "someKey = Some ''key''"

definition spoken :: synthesis where
  "spoken = Answered (Some (Text [0, 0, 0, 64]))"

definition narrating :: "tts_event list" where
  "narrating = [PlayTTS someKey ''hello'', Settled 0 spoken (Inr exampleContext)]"

section \<open>Properties of the codec and the buffer builder\<close>

lemma length_int16View: "length (int16View bytes) = length bytes div 2"
  by (induction bytes rule: int16View.induct) simp_all

lemma length_uint8OfInt16: "length (uint8OfInt16 ws) = 2 * length ws"
  by (induction ws) simp_all

lemma int16_of_its_bytes:
  "push_bit 8 (ucast (ucast (drop_bit 8 w) :: byte)) OR ucast (ucast w :: byte) = w"
  for w :: int16
  by (rule bit_word_eqI) (auto simp add: bit_simps)

lemma int16View_uint8OfInt16: "int16View (uint8OfInt16 ws) = ws"
  by (induction ws) (simp_all add: int16_of_its_bytes)

lemma supports_exampleContext: "supports exampleContext 1 24000"
  by (simp add: supports_def exampleContext_def)

lemma upt_0_2: "[0..<2] = [0, Suc 0]"
  by (simp add: numeral_2_eq_2)

lemma upt_0_3: "[0..<3] = [0, Suc 0, Suc (Suc 0)]"
  by (simp add: numeral_3_eq_3)

lemma pcmToAudioBuffer_odd:
  "odd (length (arrayBuffer data)) \<Longrightarrow> pcmToAudioBuffer data ctx rate numChannels = Inl RangeError"
  by (simp add: pcmToAudioBuffer_def newInt16Array_def)

lemma pcmToAudioBuffer_even:
  assumes "supports ctx numChannels rate" "even (length (arrayBuffer data))"
  shows "pcmToAudioBuffer data ctx rate numChannels =
     (if length (arrayBuffer data) div 2 div numChannels = 0 then Inl NotSupportedError
      else Inr \<lparr>numberOfChannels = numChannels,
                bufferLength = length (arrayBuffer data) div 2 div numChannels, sampleRate = rate,
                channelData =
                  map (\<lambda>channel.
                        map (\<lambda>i. real_of_int (sint (int16View (arrayBuffer data) ! (i * numChannels + channel))) / 32768)
                          [0..<length (arrayBuffer data) div 2 div numChannels])
                    [0..<numChannels]\<rparr>)"
  using assms
  by (auto simp add: pcmToAudioBuffer_def newInt16Array_def createBuffer_def supports_def
      length_int16View)

lemma uint8ArrayOf_simps:
  "arrayBuffer (uint8ArrayOf bytes) = bytes" "byteOffset (uint8ArrayOf bytes) = 0"
  "byteLength (uint8ArrayOf bytes) = length bytes" "bytesOf (uint8ArrayOf bytes) = bytes"
  "spansBuffer (uint8ArrayOf bytes)"
  by (simp_all add: uint8ArrayOf_def bytesOf_def spansBuffer_def)

lemma no_frame_iff:
  fixes n numChannels :: nat
  assumes "0 < numChannels" "even n"
  shows "n div 2 div numChannels = 0 \<longleftrightarrow> n < 2 * numChannels"
proof -
  have "n div 2 div numChannels = 0 \<longleftrightarrow> n div 2 < numChannels"
    using assms(1) by (simp add: div_eq_0_iff)
  also have "\<dots> \<longleftrightarrow> n < 2 * numChannels"
    using assms(2) by (auto elim!: evenE)
  finally show ?thesis .
qed

text \<open>
  Claim C7, as the code has it.  The builder reads \<open>data.buffer\<close>, so what it does with an
  array is what it does with the array that spans the same buffer.  For an array that
  spans its buffer (as \<open>base64Decode\<close> returns), on a device that supports the channel count
  and the sample rate: an odd byte length makes the builder fail (the \<open>RangeError\<close> of the
  16-bit view), never truncate; an even byte length of at least one frame
  (\<open>2 * numChannels\<close> bytes) gives a buffer of \<open>byteLength div 2 div numChannels\<close> frames
  with that many samples in each of its channels; and an even byte length shorter than
  one frame, zero included, fails as well: the device refuses to allocate a buffer of
  zero frames.
\<close>

theorem pcmToAudioBuffer_outcome:
  assumes "supports ctx numChannels rate"
  shows "pcmToAudioBuffer data ctx rate numChannels =
           pcmToAudioBuffer (uint8ArrayOf (arrayBuffer data)) ctx rate numChannels \<and>
         (spansBuffer data \<longrightarrow>
            (odd (byteLength data) \<longrightarrow>
               pcmToAudioBuffer data ctx rate numChannels = Inl RangeError) \<and>
            (even (byteLength data) \<and> byteLength data < 2 * numChannels \<longrightarrow>
               pcmToAudioBuffer data ctx rate numChannels = Inl NotSupportedError) \<and>
            (even (byteLength data) \<and> 2 * numChannels \<le> byteLength data \<longrightarrow>
               (\<exists>buffer. pcmToAudioBuffer data ctx rate numChannels = Inr buffer \<and>
                  bufferLength buffer = byteLength data div 2 div numChannels \<and>
                  numberOfChannels buffer = numChannels \<and> sampleRate buffer = rate \<and>
                  length (channelData buffer) = numChannels \<and>
                  (\<forall>c \<in> set (channelData buffer). length c = bufferLength buffer))))"
proof (intro conjI impI)
  show "pcmToAudioBuffer data ctx rate numChannels =
      pcmToAudioBuffer (uint8ArrayOf (arrayBuffer data)) ctx rate numChannels"
    by (simp add: pcmToAudioBuffer_def uint8ArrayOf_simps)
next
  assume "spansBuffer data" "odd (byteLength data)"
  then have "odd (length (arrayBuffer data))" by (simp add: spansBuffer_def)
  then show "pcmToAudioBuffer data ctx rate numChannels = Inl RangeError"
    by (rule pcmToAudioBuffer_odd)
next
  assume s: "spansBuffer data" and a: "even (byteLength data) \<and> byteLength data < 2 * numChannels"
  from s a have e: "even (length (arrayBuffer data))" by (simp add: spansBuffer_def)
  from s a assms have "length (arrayBuffer data) div 2 div numChannels = 0"
    by (simp add: no_frame_iff supports_def spansBuffer_def)
  with e assms show "pcmToAudioBuffer data ctx rate numChannels = Inl NotSupportedError"
    by (simp add: pcmToAudioBuffer_even)
next
  assume s: "spansBuffer data" and a: "even (byteLength data) \<and> 2 * numChannels \<le> byteLength data"
  from s have l: "length (arrayBuffer data) = byteLength data" by (simp add: spansBuffer_def)
  from a have e: "even (length (arrayBuffer data))" by (simp add: l)
  from a assms have "byteLength data div 2 div numChannels \<noteq> 0"
    by (simp add: no_frame_iff supports_def)
  with e assms show "\<exists>buffer. pcmToAudioBuffer data ctx rate numChannels = Inr buffer \<and>
      bufferLength buffer = byteLength data div 2 div numChannels \<and>
      numberOfChannels buffer = numChannels \<and> sampleRate buffer = rate \<and>
      length (channelData buffer) = numChannels \<and>
      (\<forall>c \<in> set (channelData buffer). length c = bufferLength buffer)"
    by (auto simp add: pcmToAudioBuffer_even l)
qed

theorem pcmToAudioBuffer_outcome_witness:
  "supports exampleContext 1 24000 \<and> spansBuffer (uint8ArrayOf [0, 128]) \<and>
   even (byteLength (uint8ArrayOf [0, 128])) \<and> 2 * 1 \<le> byteLength (uint8ArrayOf [0, 128]) \<and>
   (\<exists>buffer. pcmToAudioBuffer (uint8ArrayOf [0, 128]) exampleContext 24000 1 = Inr buffer \<and>
      bufferLength buffer = 1 \<and> length (channelData buffer) = 1) \<and>
   spansBuffer (uint8ArrayOf [7]) \<and> odd (byteLength (uint8ArrayOf [7])) \<and>
   pcmToAudioBuffer (uint8ArrayOf [7]) exampleContext 24000 1 = Inl RangeError \<and>
   byteLength (uint8ArrayOf [0, 128]) < 2 * 2 \<and> supports exampleContext 2 24000 \<and>
   pcmToAudioBuffer (uint8ArrayOf [0, 128]) exampleContext 24000 2 = Inl NotSupportedError \<and>
   \<not> spansBuffer middleView \<and>
   pcmToAudioBuffer middleView exampleContext 24000 1 =
     pcmToAudioBuffer (uint8ArrayOf [1, 2, 3, 4, 5, 6]) exampleContext 24000 1"
proof -
  have stereo: "supports exampleContext 2 24000"
    by (simp add: supports_def exampleContext_def)
  have m: "\<not> spansBuffer middleView" "arrayBuffer middleView = [1, 2, 3, 4, 5, 6]"
    by (simp_all add: spansBuffer_def middleView_def)
  from pcmToAudioBuffer_outcome [OF supports_exampleContext, of "uint8ArrayOf [0, 128]"]
    pcmToAudioBuffer_outcome [OF supports_exampleContext, of "uint8ArrayOf [7]"]
    pcmToAudioBuffer_outcome [OF stereo, of "uint8ArrayOf [0, 128]"]
    pcmToAudioBuffer_outcome [OF supports_exampleContext, of middleView]
    supports_exampleContext stereo m
  show ?thesis by (auto simp add: uint8ArrayOf_simps)
qed

text \<open>
  The claim as the specification words it promises, for every input of even byte length, a
  buffer of \<open>byteLength / 2 / channelCount\<close> frames, and a failure for every input of odd byte
  length.  The empty input has even length, and the builder fails on it.  An array of two
  bytes in the middle of a buffer of six gives three frames, not one.  An array of the
  first three bytes of a buffer of four gives two frames, not a failure.
\<close>

theorem pcmToAudioBuffer_claim_fails:
  "even (byteLength (uint8ArrayOf [])) \<and>
   pcmToAudioBuffer (uint8ArrayOf []) exampleContext 24000 1 = Inl NotSupportedError \<and>
   bytesOf middleView = [3, 4] \<and> byteLength middleView = 2 \<and>
   pcmToAudioBuffer middleView exampleContext 24000 1 =
     Inr \<lparr>numberOfChannels = 1, bufferLength = 3, sampleRate = 24000,
          channelData = [[513 / 32768, 1027 / 32768, 1541 / 32768]]\<rparr> \<and>
   bytesOf oddView = [0, 0, 0] \<and> byteLength oddView = 3 \<and>
   pcmToAudioBuffer oddView exampleContext 24000 1 =
     Inr \<lparr>numberOfChannels = 1, bufferLength = 2, sampleRate = 24000,
          channelData = [[0, 1 / 2]]\<rparr>"
proof -
  have "pcmToAudioBuffer (uint8ArrayOf []) exampleContext 24000 1 = Inl NotSupportedError"
    by (simp add: pcmToAudioBuffer_def newInt16Array_def createBuffer_def exampleContext_def
        uint8ArrayOf_def)
  moreover have "int16View [1, 2, 3, 4, 5, 6] = [513, 1027, 1541]" by simp
  then have "pcmToAudioBuffer middleView exampleContext 24000 1 =
     Inr \<lparr>numberOfChannels = 1, bufferLength = 3, sampleRate = 24000,
          channelData = [[513 / 32768, 1027 / 32768, 1541 / 32768]]\<rparr>"
    using pcmToAudioBuffer_even [OF supports_exampleContext, of middleView]
    by (simp add: middleView_def upt_0_3)
  moreover have "int16View [0, 0, 0, 64] = [0, 16384]" by simp
  then have "pcmToAudioBuffer oddView exampleContext 24000 1 =
     Inr \<lparr>numberOfChannels = 1, bufferLength = 2, sampleRate = 24000,
          channelData = [[0, 1 / 2]]\<rparr>"
    using pcmToAudioBuffer_even [OF supports_exampleContext, of oddView]
    by (simp add: oddView_def upt_0_2)
  ultimately show ?thesis
    by (simp add: uint8ArrayOf_def bytesOf_def middleView_def oddView_def)
qed

lemma sint_toInt16:
  assumes "- 32768 \<le> truncToZero v" "truncToZero v < 32768"
  shows "sint (toInt16 v) = truncToZero v"
  using assms by (simp add: toInt16_def sint_sbintrunc' signed_take_bit_int_eq_self)

lemma abs_scaled:
  fixes k y c :: real
  assumes "\<bar>k - y * 32768\<bar> < c"
  shows "\<bar>k / 32768 - y\<bar> < c / 32768"
proof -
  have "k / 32768 - y = (k - y * 32768) / 32768"
    by (simp add: diff_divide_distrib)
  then have "\<bar>k / 32768 - y\<bar> = \<bar>k - y * 32768\<bar> / 32768"
    by (simp only: abs_divide abs_numeral)
  with assms show ?thesis
    by (simp add: divide_strict_right_mono)
qed

lemma negative_sample_error:
  assumes "- 1 \<le> x" "x < 0"
  shows "\<bar>real_of_int (sint (int16OfSample x)) / 32768 - x\<bar> < 1 / 32768"
proof -
  define v where "v = x * 32768"
  have s: "max (- 1) (min 1 x) = x" using assms by simp
  have tv: "truncToZero v = \<lceil>v\<rceil>" using assms by (simp add: truncToZero_def v_def ceiling_def)
  have "- 32768 \<le> v" "v < 0" using assms by (simp_all add: v_def)
  then have b: "- 32768 \<le> \<lceil>v\<rceil>" "\<lceil>v\<rceil> \<le> 0" by (simp_all add: le_ceiling_iff ceiling_le_iff)
  have "sint (int16OfSample x) = \<lceil>v\<rceil>"
    using b assms by (simp add: int16OfSample_def s v_def[symmetric] sint_toInt16 tv)
  moreover have "\<bar>real_of_int \<lceil>v\<rceil> - x * 32768\<bar> < 1"
    unfolding v_def[symmetric] by linarith
  ultimately show ?thesis
    using abs_scaled[of "real_of_int \<lceil>v\<rceil>" x 1] by simp
qed

lemma nonnegative_sample_error:
  assumes "0 \<le> x" "x \<le> 1"
  shows "\<bar>real_of_int (sint (int16OfSample x)) / 32768 - x\<bar> < 2 / 32768"
proof -
  define v where "v = x * 32767"
  have s: "max (- 1) (min 1 x) = x" using assms by simp
  have tv: "truncToZero v = \<lfloor>v\<rfloor>" using assms by (simp add: truncToZero_def v_def)
  have "0 \<le> v" "v \<le> 32767" using assms by (simp_all add: v_def)
  then have b: "0 \<le> \<lfloor>v\<rfloor>" "\<lfloor>v\<rfloor> \<le> 32767" by (simp_all add: le_floor_iff floor_le_iff)
  have "sint (int16OfSample x) = \<lfloor>v\<rfloor>"
    using b assms by (simp add: int16OfSample_def s v_def[symmetric] sint_toInt16 tv)
  moreover have "\<bar>real_of_int \<lfloor>v\<rfloor> - x * 32768\<bar> < 2"
    using assms unfolding v_def by linarith
  ultimately show ?thesis
    using abs_scaled[of "real_of_int \<lfloor>v\<rfloor>" x 2] by simp
qed

lemma sample_error:
  assumes "- 1 \<le> x" "x \<le> 1"
  shows "\<bar>real_of_int (sint (int16OfSample x)) / 32768 - x\<bar> < 2 / 32768 \<and>
         (x \<le> 0 \<longrightarrow> \<bar>real_of_int (sint (int16OfSample x)) / 32768 - x\<bar> < 1 / 32768)"
proof (cases "x < 0")
  case True
  with assms negative_sample_error [of x] show ?thesis by simp
next
  case False
  with assms nonnegative_sample_error [of x] have "x \<le> 0 \<Longrightarrow> x = 0"
    and "\<bar>real_of_int (sint (int16OfSample x)) / 32768 - x\<bar> < 2 / 32768" by simp_all
  moreover have "\<bar>real_of_int (sint (int16OfSample 0)) / 32768 - 0\<bar> < 1 / 32768"
    by (simp add: int16OfSample_def toInt16_def truncToZero_def)
  ultimately show ?thesis by auto
qed

lemma int16OfSample_near_one: "int16OfSample (65535 / 65536) = 32766"
  by (simp add: int16OfSample_def toInt16_def truncToZero_def)

lemma pcmToAudioBuffer_mono:
  assumes "supports ctx 1 rate" "ws \<noteq> []"
  shows "pcmToAudioBuffer (uint8ArrayOf (uint8OfInt16 ws)) ctx rate 1 =
     Inr \<lparr>numberOfChannels = 1, bufferLength = length ws, sampleRate = rate,
          channelData = [map (\<lambda>w. real_of_int (sint w) / 32768) ws]\<rparr>"
proof -
  have "map (\<lambda>i. real_of_int (sint (ws ! i)) / 32768) [0..<length ws] =
        map (\<lambda>w. real_of_int (sint w) / 32768) ws"
    by (rule nth_equalityI) simp_all
  then show ?thesis using assms
    by (simp add: pcmToAudioBuffer_even uint8ArrayOf_simps length_uint8OfInt16
        int16View_uint8OfInt16)
qed

text \<open>
  Claim C8, as the code has it.  A non-empty array of samples in \<open>[-1, 1]\<close>, encoded by
  \<open>createAudioBlob\<close> (\<open>float32ToInt16\<close>, then the bytes, then base64) and decoded by
  \<open>base64Decode\<close> and \<open>pcmToAudioBuffer\<close> (division by 32768) on a device that supports
  one channel at the given rate, comes back as one channel of the same length in which
  every sample differs from the original by less than \<open>2 / 32768\<close>, and by less than
  \<open>1 / 32768\<close> where the original is not positive.  (Positive samples are scaled by
  32767 and divided by 32768, which costs up to one further step.)
\<close>

theorem pcm_round_trip:
  assumes "supports ctx 1 rate" "xs \<noteq> []" "\<forall>x \<in> set xs. - 1 \<le> x \<and> x \<le> 1"
  shows "\<exists>bytes buffer ys.
           base64Decode (blobData (createAudioBlob xs)) = Inr bytes \<and>
           pcmToAudioBuffer bytes ctx rate 1 = Inr buffer \<and>
           channelData buffer = [ys] \<and> length ys = length xs \<and>
           (\<forall>i < length xs.
              \<bar>ys ! i - xs ! i\<bar> < 2 / 32768 \<and>
              (xs ! i \<le> 0 \<longrightarrow> \<bar>ys ! i - xs ! i\<bar> < 1 / 32768))"
proof -
  let ?ws = "float32ToInt16 xs"
  let ?ys = "map (\<lambda>w. real_of_int (sint w) / 32768) ?ws"
  have ne: "?ws \<noteq> []" using assms(2) by (simp add: float32ToInt16_def)
  have bytes: "base64Decode (blobData (createAudioBlob xs)) = Inr (uint8ArrayOf (uint8OfInt16 ?ws))"
    by (simp add: createAudioBlob_def base64Encode_def base64Decode_def uint8ArrayOf_simps)
  have buf: "pcmToAudioBuffer (uint8ArrayOf (uint8OfInt16 ?ws)) ctx rate 1 =
      Inr \<lparr>numberOfChannels = 1, bufferLength = length ?ws, sampleRate = rate,
           channelData = [?ys]\<rparr>"
    using assms(1) ne by (rule pcmToAudioBuffer_mono)
  have len: "length ?ys = length xs" by (simp add: float32ToInt16_def)
  have err: "\<bar>?ys ! i - xs ! i\<bar> < 2 / 32768 \<and>
             (xs ! i \<le> 0 \<longrightarrow> \<bar>?ys ! i - xs ! i\<bar> < 1 / 32768)" if "i < length xs" for i
  proof -
    from that assms(3) have "- 1 \<le> xs ! i" "xs ! i \<le> 1" by simp_all
    then show ?thesis
      using that sample_error [of "xs ! i"] by (simp add: float32ToInt16_def)
  qed
  from bytes buf len err show ?thesis by auto
qed

theorem pcm_round_trip_witness:
  "supports exampleContext 1 24000 \<and>
   (\<exists>bytes buffer ys.
      base64Decode (blobData (createAudioBlob [1 / 2, - 1])) = Inr bytes \<and>
      pcmToAudioBuffer bytes exampleContext 24000 1 = Inr buffer \<and>
      channelData buffer = [ys] \<and> length ys = 2 \<and>
      \<bar>ys ! 0 - 1 / 2\<bar> < 2 / 32768 \<and> \<bar>ys ! 1 - (- 1)\<bar> < 1 / 32768)"
proof -
  have "\<forall>x \<in> set [1 / 2, - 1 :: real]. - 1 \<le> x \<and> x \<le> 1" by simp
  from pcm_round_trip [OF supports_exampleContext _ this]
  obtain bytes buffer ys where
    "base64Decode (blobData (createAudioBlob [1 / 2, - 1])) = Inr bytes"
    "pcmToAudioBuffer bytes exampleContext 24000 1 = Inr buffer"
    "channelData buffer = [ys]" "length ys = 2"
    and e: "\<forall>i < 2. \<bar>ys ! i - [1 / 2, - 1] ! i\<bar> < 2 / 32768 \<and>
              ([1 / 2, - 1 :: real] ! i \<le> 0 \<longrightarrow> \<bar>ys ! i - [1 / 2, - 1] ! i\<bar> < 1 / 32768)"
    by auto
  moreover from e have "\<bar>ys ! 0 - 1 / 2\<bar> < 2 / 32768"
    by (metis nth_Cons_0 zero_less_numeral)
  moreover from e have "\<bar>ys ! 1 - (- 1)\<bar> < 1 / 32768"
    by (metis One_nat_def nth_Cons_0 nth_Cons_Suc one_less_numeral_iff semiring_norm(76)
        neg_le_0_iff_le zero_le_one)
  ultimately show ?thesis using supports_exampleContext by blast
qed

text \<open>
  The bound \<open>1 / 32768\<close> of the specification does not hold for positive samples: the sample
  \<open>65535 / 65536\<close> (a 32-bit float) is encoded as 32766 and comes back as \<open>32766 / 32768\<close>,
  which is \<open>3 / 65536\<close> away.
\<close>

theorem pcm_round_trip_exceeds_step:
  "- 1 \<le> (65535 / 65536 :: real) \<and> (65535 / 65536 :: real) \<le> 1 \<and>
   pcmToAudioBuffer (uint8ArrayOf (uint8OfInt16 (float32ToInt16 [65535 / 65536]))) exampleContext
       24000 1 =
     Inr \<lparr>numberOfChannels = 1, bufferLength = 1, sampleRate = 24000,
          channelData = [[32766 / 32768]]\<rparr> \<and>
   \<not> \<bar>32766 / 32768 - 65535 / 65536 :: real\<bar> \<le> 1 / 32768"
proof -
  have "float32ToInt16 [65535 / 65536] = [32766]"
    by (simp add: float32ToInt16_def int16OfSample_near_one)
  then show ?thesis
    using pcmToAudioBuffer_mono [OF supports_exampleContext, of "[32766]"] by simp
qed

section \<open>Properties of the live tutor\<close>

lemma andThen_None [simp]: "andThen (None, s) f = f s"
  by (simp add: andThen_def)

lemma forEach_stop_guarded:
  "\<exists>g. forEach (\<lambda>source s. tryIgnore (stopSource source s)) xs s = (None, s\<lparr>sourceNodes := g\<rparr>)"
proof (induction xs arbitrary: s)
  case Nil
  have "forEach (\<lambda>source s. tryIgnore (stopSource source s)) [] s = (None, s\<lparr>sourceNodes := sourceNodes s\<rparr>)"
    by simp
  then show ?case by blast
next
  case (Cons x xs)
  have "\<exists>g1. tryIgnore (stopSource x s) = (None, s\<lparr>sourceNodes := g1\<rparr>)"
  proof (cases "startTime (sourceNodes s x)")
    case None
    then have "tryIgnore (stopSource x s) = (None, s\<lparr>sourceNodes := sourceNodes s\<rparr>)"
      by (simp add: tryIgnore_def stopSource_def)
    then show ?thesis by blast
  next
    case (Some a)
    then have "tryIgnore (stopSource x s) =
        (None, s\<lparr>sourceNodes := (sourceNodes s)(x := (sourceNodes s x)\<lparr>stopped := True\<rparr>)\<rparr>)"
      by (simp add: tryIgnore_def stopSource_def)
    then show ?thesis by blast
  qed
  then obtain g1 where g1: "tryIgnore (stopSource x s) = (None, s\<lparr>sourceNodes := g1\<rparr>)" by blast
  from Cons.IH [of "s\<lparr>sourceNodes := g1\<rparr>"] obtain g where
    "forEach (\<lambda>source s. tryIgnore (stopSource source s)) xs (s\<lparr>sourceNodes := g1\<rparr>) = (None, s\<lparr>sourceNodes := g\<rparr>)"
    by auto
  with g1 have "forEach (\<lambda>source s. tryIgnore (stopSource source s)) (x # xs) s = (None, s\<lparr>sourceNodes := g\<rparr>)"
    by simp
  then show ?case by blast
qed

lemma stopAllPlaying_result:
  "\<exists>g. stopAllPlaying s = (None, s\<lparr>sourceNodes := g, activeSourcesRef := []\<rparr>)"
proof -
  obtain g where "forEach (\<lambda>source s'. tryIgnore (stopSource source s')) (activeSourcesRef s) s = (None, s\<lparr>sourceNodes := g\<rparr>)"
    using forEach_stop_guarded by blast
  then have "stopAllPlaying s = (None, s\<lparr>sourceNodes := g, activeSourcesRef := []\<rparr>)"
    by (simp add: stopAllPlaying_def)
  then show ?thesis by blast
qed

lemma stopScreenShare_result:
  "\<exists>s'. stopScreenShare s = (None, s') \<and> screenIntervalRef s' = None \<and> screenStreamRef s' = None
     \<and> inputContextRef s' = inputContextRef s \<and> outputContextRef s' = outputContextRef s
     \<and> processorRef s' = processorRef s \<and> inputSourceRef s' = inputSourceRef s
     \<and> activeSourcesRef s' = activeSourcesRef s \<and> sessionRef s' = sessionRef s
     \<and> nextStartTimeRef s' = nextStartTimeRef s \<and> sourceNodes s' = sourceNodes s \<and> contexts s' = contexts s
     \<and> isActive s' = isActive s \<and> isConnecting s' = isConnecting s"
  by (auto simp add: stopScreenShare_def release_def clearIntervalOf_def stopTracksOf_def clearVideo_def
      split: option.splits)


lemma triple_sequence_Nil: "(\<And>s. P s \<Longrightarrow> Q s) \<Longrightarrow> triple P (sequence []) Q"
  by (simp add: triple_def)

lemma triple_sequence_Cons:
  "triple P f Q \<Longrightarrow> triple Q (sequence fs) R \<Longrightarrow> triple P (sequence (f # fs)) R"
  by (auto simp add: triple_def andThen_def)

lemma triple_release:
  assumes "\<And>s x. P s \<Longrightarrow> ref s = Some x \<Longrightarrow>
             fst (method (Some x) s) = None \<and> Q (setNull (snd (method (Some x) s)))"
    and "\<And>s. P s \<Longrightarrow> ref s = None \<Longrightarrow> Q s"
  shows "triple P (release ref method setNull) Q"
  using assms by (auto simp add: triple_def release_def andThen_def)

lemma triple_of_result:
  "(\<And>s. P s \<Longrightarrow> \<exists>s'. f s = (None, s') \<and> Q s') \<Longrightarrow> triple P f Q"
  by (fastforce simp add: triple_def)

lemma stopSession_triple:
  "triple (\<lambda>s. nextStartTimeRef s = c) stopSession (\<lambda>s. released s \<and> nextStartTimeRef s = c \<and> \<not> isActive s \<and> \<not> isConnecting s)"
  unfolding stopSession_def
proof (rule triple_sequence_Cons [where Q = "\<lambda>s. screenIntervalRef s = None \<and> screenStreamRef s = None \<and> nextStartTimeRef s = c"],
    goal_cases)
  case 1
  show ?case
  proof (rule triple_of_result)
    fix s :: live_state assume "nextStartTimeRef s = c"
    with stopScreenShare_result [of s]
    show "\<exists>s'. stopScreenShare s = (None, s') \<and> screenIntervalRef s' = None \<and>
      screenStreamRef s' = None \<and> nextStartTimeRef s' = c" by auto
  qed
next
  case 2
  show ?case
  proof (rule triple_sequence_Cons [where Q = "\<lambda>s. screenIntervalRef s = None \<and> screenStreamRef s = None \<and> inputContextRef s = None \<and>  nextStartTimeRef s = c"], goal_cases)
    case 1
    show ?case by (rule triple_release) (auto simp add: closeContextOf_def)
  next
    case 2
    show ?case
    proof (rule triple_sequence_Cons [where Q = "\<lambda>s. screenIntervalRef s = None \<and> screenStreamRef s = None \<and> inputContextRef s = None \<and> outputContextRef s = None \<and> nextStartTimeRef s = c"], goal_cases)
      case 1
      show ?case by (rule triple_release) (auto simp add: closeContextOf_def)
    next
      case 2
      show ?case
      proof (rule triple_sequence_Cons [where Q = "\<lambda>s. screenIntervalRef s = None \<and> screenStreamRef s = None \<and> inputContextRef s = None \<and> outputContextRef s = None \<and> processorRef s = None \<and> nextStartTimeRef s = c"], goal_cases)
        case 1
        show ?case by (rule triple_release) (auto simp add: disconnectOf_def)
      next
        case 2
        show ?case
        proof (rule triple_sequence_Cons [where Q = "\<lambda>s. screenIntervalRef s = None \<and> screenStreamRef s = None \<and> inputContextRef s = None \<and> outputContextRef s = None \<and> processorRef s = None \<and> inputSourceRef s = None \<and> nextStartTimeRef s = c"], goal_cases)
          case 1
          show ?case by (rule triple_release) (auto simp add: disconnectOf_def)
        next
          case 2
          show ?case
          proof (rule triple_sequence_Cons [where Q = "\<lambda>s. screenIntervalRef s = None \<and> screenStreamRef s = None \<and> inputContextRef s = None \<and> outputContextRef s = None \<and> processorRef s = None \<and> inputSourceRef s = None \<and> activeSourcesRef s = [] \<and> nextStartTimeRef s = c"], goal_cases)
            case 1
            show ?case
            proof (rule triple_of_result)
              fix s :: live_state
              assume "screenIntervalRef s = None \<and> screenStreamRef s = None \<and>
                inputContextRef s = None \<and> outputContextRef s = None \<and> processorRef s = None \<and>
                inputSourceRef s = None \<and> nextStartTimeRef s = c"
              moreover obtain g where
                "stopAllPlaying s = (None, s\<lparr>sourceNodes := g, activeSourcesRef := []\<rparr>)"
                using stopAllPlaying_result by blast
              ultimately show "\<exists>s'. stopAllPlaying s = (None, s') \<and> screenIntervalRef s' = None \<and>
                screenStreamRef s' = None \<and> inputContextRef s' = None \<and> outputContextRef s' = None \<and>
                processorRef s' = None \<and> inputSourceRef s' = None \<and> activeSourcesRef s' = [] \<and>
                nextStartTimeRef s' = c" by simp
            qed
          next
            case 2
            show ?case
              by (rule triple_sequence_Cons [where Q = "\<lambda>s. released s \<and> nextStartTimeRef s = c \<and> \<not> isActive s \<and> \<not> isConnecting s"])
                (simp_all add: triple_def released_def)
          qed
        qed
      qed
    qed
  qed
qed


lemma stopSession_result:
  "\<exists>s'. stopSession s = (None, s') \<and> released s' \<and> nextStartTimeRef s' = nextStartTimeRef s \<and>
     \<not> isActive s' \<and> \<not> isConnecting s'"
proof -
  let ?s' = "snd (stopSession s)"
  from stopSession_triple [of "nextStartTimeRef s"]
  have "fst (stopSession s) = None \<and> released ?s' \<and> nextStartTimeRef ?s' = nextStartTimeRef s \<and>
     \<not> isActive ?s' \<and> \<not> isConnecting ?s'"
    unfolding triple_def by blast
  moreover from this have "stopSession s = (None, ?s')"
    by (simp add: prod_eq_iff)
  ultimately show ?thesis by blast
qed

lemma stopSource_started:
  "startTime (sourceNodes s x) \<noteq> None \<Longrightarrow>
   stopSource x s = (None, s\<lparr>sourceNodes := (sourceNodes s)(x := (sourceNodes s x)\<lparr>stopped := True\<rparr>)\<rparr>)"
  by (auto simp add: stopSource_def)

text \<open>What a run of \<open>stop\<close> calls leaves of the store of sources: the start times.\<close>

lemma forEach_stopSource_sourceNodes:
  "\<exists>g. snd (forEach stopSource xs s) = s\<lparr>sourceNodes := g\<rparr> \<and>
       (\<forall>x. startTime (g x) = startTime (sourceNodes s x)) \<and>
       (\<forall>x. stopped (sourceNodes s x) \<longrightarrow> stopped (g x))"
proof (induction xs arbitrary: s)
  case Nil
  have "snd (forEach stopSource [] s) = s\<lparr>sourceNodes := sourceNodes s\<rparr>" by simp
  then show ?case by (intro exI [of _ "sourceNodes s"]) simp
next
  case (Cons x xs)
  show ?case
  proof (cases "startTime (sourceNodes s x)")
    case None
    then have "snd (forEach stopSource (x # xs) s) = s\<lparr>sourceNodes := sourceNodes s\<rparr>"
      by (simp add: stopSource_def andThen_def)
    then show ?thesis by (intro exI [of _ "sourceNodes s"]) simp
  next
    case (Some start)
    let ?g1 = "(sourceNodes s)(x := (sourceNodes s x)\<lparr>stopped := True\<rparr>)"
    from Some have step: "forEach stopSource (x # xs) s = forEach stopSource xs (s\<lparr>sourceNodes := ?g1\<rparr>)"
      by (simp add: stopSource_started)
    from Cons.IH [of "s\<lparr>sourceNodes := ?g1\<rparr>"] obtain g where
      g: "snd (forEach stopSource xs (s\<lparr>sourceNodes := ?g1\<rparr>)) = s\<lparr>sourceNodes := g\<rparr>"
        "\<forall>y. startTime (g y) = startTime (?g1 y)"
        "\<forall>y. stopped (?g1 y) \<longrightarrow> stopped (g y)"
      by auto
    show ?thesis
    proof (intro exI [of _ g] conjI allI impI)
      show "snd (forEach stopSource (x # xs) s) = s\<lparr>sourceNodes := g\<rparr>"
        using step g(1) by simp
      show "startTime (g y) = startTime (sourceNodes s y)" for y
        using g(2) by simp
      show "stopped (g y)" if "stopped (sourceNodes s y)" for y
        using g(3) that by simp
    qed
  qed
qed


lemma forEach_stopSource_started:
  "list_all (\<lambda>x. startTime (sourceNodes s x) \<noteq> None) xs \<Longrightarrow>
   fst (forEach stopSource xs s) = None \<and>
   list_all (\<lambda>x. stopped (sourceNodes (snd (forEach stopSource xs s)) x)) xs"
proof (induction xs arbitrary: s)
  case Nil
  show ?case by simp
next
  case (Cons x xs)
  let ?g1 = "(sourceNodes s)(x := (sourceNodes s x)\<lparr>stopped := True\<rparr>)"
  let ?s1 = "s\<lparr>sourceNodes := ?g1\<rparr>"
  from Cons.prems have step: "forEach stopSource (x # xs) s = forEach stopSource xs ?s1"
    by (simp add: stopSource_started)
  from Cons.prems have "list_all (\<lambda>y. startTime (sourceNodes ?s1 y) \<noteq> None) xs"
    by (simp add: list_all_iff)
  from Cons.IH [OF this] have ih: "fst (forEach stopSource xs ?s1) = None"
    "list_all (\<lambda>y. stopped (sourceNodes (snd (forEach stopSource xs ?s1)) y)) xs"
    by simp_all
  from forEach_stopSource_sourceNodes [of xs ?s1] obtain g where
    g: "snd (forEach stopSource xs ?s1) = ?s1\<lparr>sourceNodes := g\<rparr>"
      "\<forall>y. stopped (sourceNodes ?s1 y) \<longrightarrow> stopped (g y)"
    by auto
  have "stopped (sourceNodes ?s1 x)" by simp
  with g have "stopped (sourceNodes (snd (forEach stopSource xs ?s1)) x)" by simp
  with ih show ?case unfolding step by simp
qed

lemma onmessageInterrupted_result:
  assumes "interrupted message" "activeStarted s"
  shows "fst (onmessageInterrupted message s) = None"
    and "activeSourcesRef (snd (onmessageInterrupted message s)) = []"
    and "list_all (\<lambda>x. stopped (sourceNodes (snd (onmessageInterrupted message s)) x)) (activeSourcesRef s)"
    and "nextStartTimeRef (snd (onmessageInterrupted message s)) =
           (case outputContextRef s of
              Some ctx \<Rightarrow> currentTime (contexts s ctx)
            | None \<Rightarrow> nextStartTimeRef s)"
proof -
  let ?r = "forEach stopSource (activeSourcesRef s) s"
  from assms(2) have ok: "fst ?r = None"
    and st: "list_all (\<lambda>x. stopped (sourceNodes (snd ?r) x)) (activeSourcesRef s)"
    using forEach_stopSource_started [of s "activeSourcesRef s"] by (simp_all add: activeStarted_def)
  from forEach_stopSource_sourceNodes [of "activeSourcesRef s" s] obtain g where
    g: "snd ?r = s\<lparr>sourceNodes := g\<rparr>" by auto
  have r: "?r = (None, s\<lparr>sourceNodes := g\<rparr>)"
    using ok g by (simp add: prod_eq_iff)
  have res: "onmessageInterrupted message s =
      (None, (case outputContextRef s of
                Some ctx \<Rightarrow> s\<lparr>sourceNodes := g, activeSourcesRef := [],
                                nextStartTimeRef := currentTime (contexts s ctx)\<rparr>
              | None \<Rightarrow> s\<lparr>sourceNodes := g, activeSourcesRef := []\<rparr>))"
    using assms(1) r by (simp add: onmessageInterrupted_def Let_def split: option.splits)
  show "fst (onmessageInterrupted message s) = None" by (simp add: res)
  show "activeSourcesRef (snd (onmessageInterrupted message s)) = []"
    by (simp add: res split: option.splits)
  show "nextStartTimeRef (snd (onmessageInterrupted message s)) =
           (case outputContextRef s of
              Some ctx \<Rightarrow> currentTime (contexts s ctx)
            | None \<Rightarrow> nextStartTimeRef s)"
    by (simp add: res split: option.splits)
  from st g show "list_all (\<lambda>x. stopped (sourceNodes (snd (onmessageInterrupted message s)) x)) (activeSourcesRef s)"
    by (simp add: res split: option.splits)
qed

lemma set_setAdd: "set (setAdd x xs) = insert x (set xs)"
  by (auto simp add: setAdd_def)

lemma duration_nonneg: "0 \<le> duration b"
  by (simp add: duration_def)

lemma onmessageAudio_scheduled:
  assumes "outputContextRef s = Some ctx" "inlineAudio message = Some base64Audio"
    "decodeAudio (contexts s ctx) base64Audio = Inr audioBuffer"
  shows "onmessageAudio message s =
        (None, s\<lparr>sourceNodes := (sourceNodes s)
                    (fresh s := \<lparr>buffer = audioBuffer,
                       startTime = Some (max (nextStartTimeRef s) (currentTime (contexts s ctx))),
                       stopped = False\<rparr>),
                  fresh := fresh s + 1,
                  nextStartTimeRef := max (nextStartTimeRef s) (currentTime (contexts s ctx)) + duration audioBuffer,
                  activeSourcesRef := setAdd (fresh s) (activeSourcesRef s)\<rparr>)"
proof -
  have "(if nextStartTimeRef s < currentTime (contexts s ctx) then currentTime (contexts s ctx)
         else nextStartTimeRef s) = max (nextStartTimeRef s) (currentTime (contexts s ctx))"
    by (simp add: max_def)
  with assms show ?thesis by (simp add: onmessageAudio_def Let_def)
qed

lemma onmessageAudio_frame:
  "outputContextRef (snd (onmessageAudio message s)) = outputContextRef s"
  "contexts (snd (onmessageAudio message s)) = contexts s"
  "outputContextRef s = None \<Longrightarrow> snd (onmessageAudio message s) = s"
  by (simp_all add: onmessageAudio_def Let_def split: option.splits sum.splits)

lemma onmessageAudio_monotone:
  "nextStartTimeRef s \<le> nextStartTimeRef (snd (onmessageAudio message s))"
proof -
  have "a \<le> (if a < b then b else a) + duration c" for a b :: real and c
    using duration_nonneg [of c] by (simp add: add_increasing2)
  then show ?thesis
    by (simp add: onmessageAudio_def Let_def split: option.splits sum.splits)
qed

lemma onmessageAudio_activeStarted:
  "activeStarted s \<Longrightarrow> activeStarted (snd (onmessageAudio message s))"
  by (simp add: onmessageAudio_def Let_def activeStarted_def list_all_iff set_setAdd
      split: option.splits sum.splits)

lemma sameSchedule_activeStarted:
  "sameSchedule s s' \<Longrightarrow> activeStarted s \<Longrightarrow> activeStarted s'"
  by (simp add: sameSchedule_def activeStarted_def)

lemma released_activeStarted: "released s \<Longrightarrow> activeStarted s"
  by (simp add: released_def activeStarted_def)

lemma stopScreenShare_sameSchedule: "sameSchedule s (snd (stopScreenShare s))"
  using stopScreenShare_result [of s] by (auto simp add: sameSchedule_def)

lemma stopSession_after:
  "fst (stopSession s) = None" "released (snd (stopSession s))"
  "nextStartTimeRef (snd (stopSession s)) = nextStartTimeRef s"
  using stopSession_result [of s] by auto

lemma startScreenShareResume_sameSchedule:
  "sameSchedule s (snd (startScreenShareResume media hasVideoTrack s))"
proof (cases media)
  case Denied
  with stopScreenShare_sameSchedule [of s] show ?thesis
    by (simp add: startScreenShareResume_def tryFinally_def sameSchedule_def)
next
  case Granted
  show ?thesis
  proof (cases hasVideoTrack)
    case True
    with Granted show ?thesis
      by (simp add: startScreenShareResume_def tryFinally_def sameSchedule_def Let_def
          split: option.splits)
  next
    case False
    let ?s1 = "s\<lparr>streams := (streams s)(fresh s := \<lparr>device = Display, live = True\<rparr>),
                  fresh := Suc (fresh s), screenStreamRef := Some (fresh s)\<rparr>"
    let ?s3 = "(case videoRef ?s1 of
                  Some video \<Rightarrow> ?s1\<lparr>videoRef := Some (video\<lparr>srcObject := Some (fresh s)\<rparr>)\<rparr>
                | None \<Rightarrow> ?s1)\<lparr>isScreenSharing := True\<rparr>"
    have "snd (startScreenShareResume media hasVideoTrack s) =
        (snd (stopScreenShare ?s3))\<lparr>isSharingLoading := False\<rparr>"
      using Granted False by (simp add: startScreenShareResume_def tryFinally_def Let_def)
    moreover have "sameSchedule s ?s3"
      by (simp add: sameSchedule_def split: option.splits)
    moreover have "sameSchedule ?s3 (snd (stopScreenShare ?s3))"
      by (rule stopScreenShare_sameSchedule)
    ultimately show ?thesis by (simp add: sameSchedule_def)
  qed
qed

lemma startSessionResume_nextStart:
  "nextStartTimeRef (snd (startSessionResume media newInput newOutput s)) =
     (case (media, newInput, newOutput) of
        (Granted, Inr inputCtx, Inr outputCtx) \<Rightarrow> currentTime outputCtx
      | _ \<Rightarrow> nextStartTimeRef s)"
  by (cases media; cases newInput; cases newOutput)
    (simp_all add: startSessionResume_def Let_def stopSession_after)

lemma startSessionResume_activeStarted:
  assumes "activeStarted s"
  shows "activeStarted (snd (startSessionResume media newInput newOutput s))"
proof -
  have "activeStarted (snd (stopSession s'))" for s'
    by (rule released_activeStarted) (rule stopSession_after)
  with assms show ?thesis
    by (cases media; cases newInput; cases newOutput)
      (simp_all add: startSessionResume_def Let_def, simp add: activeStarted_def)
qed

lemma onmessage_not_interrupted:
  "\<not> interrupted message \<Longrightarrow> onmessage message s = onmessageAudio message s"
  by (simp add: onmessage_def andThen_def onmessageInterrupted_def prod_eq_iff split: option.splits)

lemma onmessage_audio_failed:
  "fst (onmessageAudio message s) \<noteq> None \<Longrightarrow> onmessage message s = onmessageAudio message s"
  by (auto simp add: onmessage_def andThen_def split: option.splits)

lemma onmessage_audio_ok:
  "fst (onmessageAudio message s) = None \<Longrightarrow>
   onmessage message s = onmessageInterrupted message (snd (onmessageAudio message s))"
  by (simp add: onmessage_def andThen_def)

lemma onmessage_activeStarted:
  assumes "activeStarted s"
  shows "activeStarted (snd (onmessage message s))"
proof (cases "interrupted message \<and> fst (onmessageAudio message s) = None")
  case True
  from assms have "activeStarted (snd (onmessageAudio message s))"
    by (rule onmessageAudio_activeStarted)
  with True have "activeSourcesRef (snd (onmessage message s)) = []"
    by (simp add: onmessage_audio_ok onmessageInterrupted_result)
  then show ?thesis by (simp add: activeStarted_def)
next
  case False
  then have "onmessage message s = onmessageAudio message s"
    using onmessage_not_interrupted onmessage_audio_failed by blast
  with assms show ?thesis by (simp add: onmessageAudio_activeStarted)
qed

lemma step_activeStarted:
  assumes "activeStarted s"
  shows "activeStarted (snd (step e s))"
proof -
  have stop: "activeStarted (snd (stopSession s))"
    by (rule released_activeStarted) (rule stopSession_after)
  have share: "activeStarted (snd (stopScreenShare s))"
    using stopScreenShare_sameSchedule assms by (rule sameSchedule_activeStarted)
  show ?thesis
  proof (cases e)
    case (ToggleSession hasApiKey)
    with stop assms show ?thesis
      by (simp add: toggleSession_def startSession_def activeStarted_def)
  next
    case (UserMedia media newInput newOutput)
    with assms show ?thesis by (simp add: startSessionResume_activeStarted)
  next
    case Open
    with assms show ?thesis by (simp add: onopen_def activeStarted_def)
  next
    case (ServerMessage message)
    with assms show ?thesis by (simp add: onmessage_activeStarted)
  next
    case (SourceEnded source)
    with assms show ?thesis
      by (simp add: onended_def activeStarted_def setDelete_def list_all_iff)
  next
    case (StartScreenShare supported)
    with assms show ?thesis by (simp add: startScreenShare_def activeStarted_def)
  next
    case (DisplayMedia media hasVideoTrack)
    with assms startScreenShareResume_sameSchedule [of s media hasVideoTrack] show ?thesis
      by (simp add: sameSchedule_activeStarted)
  next
    case (Clock ctx t)
    with assms show ?thesis by (simp add: activeStarted_def)
  qed (simp_all add: stop share)
qed

lemma run_activeStarted: "activeStarted s \<Longrightarrow> activeStarted (run es s)"
  by (induction es arbitrary: s) (simp_all add: step_activeStarted)

lemma initialState_activeStarted: "activeStarted initialState"
  by (simp add: activeStarted_def initialState_def)

lemma int16View_chunk: "int16View [0, 0, 0, 64] = [0, 16384]"
  by simp

lemma decode_chunk:
  "decodeAudio exampleContext (Text [0, 0, 0, 64]) =
     Inr chunkBuffer"
proof -
  have "pcmToAudioBuffer (uint8ArrayOf [0, 0, 0, 64]) exampleContext 24000 1 = Inr chunkBuffer"
    using pcmToAudioBuffer_even [OF supports_exampleContext, of "uint8ArrayOf [0, 0, 0, 64]"]
    by (simp add: upt_0_2 int16View_chunk chunkBuffer_def uint8ArrayOf_simps)
  then show ?thesis by (simp add: decodeAudio_def base64Decode_def)
qed

lemma decodeAudio_clock:
  "decodeAudio (ctx\<lparr>currentTime := t\<rparr>) base64Audio = decodeAudio ctx base64Audio"
  by (simp add: decodeAudio_def pcmToAudioBuffer_def createBuffer_def split: sum.splits)

lemma duration_chunkBuffer: "duration chunkBuffer = 1 / 12000"
  by (simp add: duration_def chunkBuffer_def)

lemma small_numerals:
  "(2::nat) = Suc (Suc 0)" "(3::nat) = Suc (Suc (Suc 0))" "(4::nat) = Suc (Suc (Suc (Suc 0)))"
  "(5::nat) = Suc (Suc (Suc (Suc (Suc 0))))" "(6::nat) = Suc (Suc (Suc (Suc (Suc (Suc 0)))))"
  "(7::nat) = Suc (Suc (Suc (Suc (Suc (Suc (Suc 0))))))"
  by simp_all

lemma currentTime_exampleContext: "currentTime exampleContext = 0"
  by (simp add: exampleContext_def)

lemma sessionStarted_state:
  "run sessionStarted initialState =
     initialState\<lparr>isActive := True, isConnecting := False,
       inputContextRef := Some 1, outputContextRef := Some 2, inputSourceRef := Some 3,
       processorRef := Some 4, nextStartTimeRef := 0, sessionRef := Some 5,
       streams := (streams initialState)(0 := \<lparr>device = Microphone, live = True\<rparr>),
       connectedNodes := {4, 3}, fresh := 6\<rparr>"
proof -
  have "(\<lambda>_. exampleContext)(Suc 0 := exampleContext, Suc (Suc 0) := exampleContext) = (\<lambda>_. exampleContext)"
    by (simp add: fun_eq_iff)
  then show ?thesis
    by (simp add: sessionStarted_def toggleSession_def startSession_def startSessionResume_def
      onopen_def initialState_def Let_def small_numerals currentTime_exampleContext)
qed


lemma run_append: "run (es @ es') s = run es' (run es s)"
  by (induction es arbitrary: s) simp_all

lemma firstChunkPlaying_state:
  "outputContextRef (run firstChunkPlaying initialState) = Some 2"
  "currentTime (contexts (run firstChunkPlaying initialState) 2) = 1 / 2"
  "nextStartTimeRef (run firstChunkPlaying initialState) = 1 / 2 + 1 / 12000"
  "activeSourcesRef (run firstChunkPlaying initialState) = [6]"
  "sourceNodes (run firstChunkPlaying initialState) 6 =
     \<lparr>buffer = chunkBuffer, startTime = Some (1 / 2), stopped = False\<rparr>"
  "fresh (run firstChunkPlaying initialState) = 7"
proof -
  define t where "t = snd (step (Clock 2 (1 / 2)) (run sessionStarted initialState))"
  have t: "outputContextRef t = Some 2" "contexts t 2 = exampleContext\<lparr>currentTime := 1 / 2\<rparr>"
    "nextStartTimeRef t = 0" "activeSourcesRef t = []" "fresh t = 6"
    unfolding t_def sessionStarted_state
    by (simp_all add: initialState_def currentTime_exampleContext)
  have "decodeAudio (contexts t 2) (Text [0, 0, 0, 64]) = Inr chunkBuffer"
    by (simp only: t decodeAudio_clock decode_chunk)
  from onmessageAudio_scheduled [OF t(1) _ this, of chunk]
  have "onmessageAudio chunk t =
     (None, t\<lparr>sourceNodes := (sourceNodes t)
                    (6 := \<lparr>buffer = chunkBuffer, startTime = Some (1 / 2), stopped = False\<rparr>),
                  fresh := 7,
                  nextStartTimeRef := 1 / 2 + 1 / 12000,
                  activeSourcesRef := [6]\<rparr>)"
    by (simp add: chunk_def t setAdd_def duration_chunkBuffer)
  moreover have "run firstChunkPlaying initialState = snd (onmessageAudio chunk t)"
    by (simp add: firstChunkPlaying_def run_append t_def onmessage_not_interrupted chunk_def)
  ultimately have r: "run firstChunkPlaying initialState =
     t\<lparr>sourceNodes := (sourceNodes t)
                    (6 := \<lparr>buffer = chunkBuffer, startTime = Some (1 / 2), stopped = False\<rparr>),
                  fresh := 7,
                  nextStartTimeRef := 1 / 2 + 1 / 12000,
                  activeSourcesRef := [6]\<rparr>"
    by simp
  show "outputContextRef (run firstChunkPlaying initialState) = Some 2"
    "currentTime (contexts (run firstChunkPlaying initialState) 2) = 1 / 2"
    "nextStartTimeRef (run firstChunkPlaying initialState) = 1 / 2 + 1 / 12000"
    "activeSourcesRef (run firstChunkPlaying initialState) = [6]"
    "sourceNodes (run firstChunkPlaying initialState) 6 =
       \<lparr>buffer = chunkBuffer, startTime = Some (1 / 2), stopped = False\<rparr>"
    "fresh (run firstChunkPlaying initialState) = 7"
    unfolding r using t by simp_all
qed


lemma quiet_step:
  "quiet e \<Longrightarrow> fst (step e s) = None \<and> nextStartTimeRef (snd (step e s)) = nextStartTimeRef s \<and>
     outputContextRef (snd (step e s)) = outputContextRef s"
  by (cases e) (simp_all add: onended_def)

lemma quiet_run:
  "list_all quiet es \<Longrightarrow> nextStartTimeRef (run es s) = nextStartTimeRef s \<and>
     outputContextRef (run es s) = outputContextRef s"
  by (induction es arbitrary: s) (simp_all add: quiet_step)

text \<open>
  Claim C1.  In a state with an output context, let a message with decodable audio be
  handled, then any number of clock ticks and ended sources, then a second message with
  decodable audio, neither message reporting an interruption.  The first source is
  started at \<open>max nextStartTimeRef now\<close> and \<open>nextStartTimeRef\<close> becomes that start plus the
  duration of the first buffer.  The second source is started at the maximum of that
  value and the clock at its arrival: exactly at the first start plus the first
  duration when it arrives before the first buffer has played out, and at the clock,
  not at the stale \<open>nextStartTimeRef\<close>, when it arrives later.
\<close>

theorem gapless_schedule:
  assumes "outputContextRef s = Some ctx"
    and "inlineAudio first = Some audio1" "\<not> interrupted first"
    and "decodeAudio (contexts s ctx) audio1 = Inr buffer1"
    and "list_all quiet es"
    and "inlineAudio second = Some audio2" "\<not> interrupted second"
    and "decodeAudio (contexts (run es (snd (onmessage first s))) ctx) audio2 = Inr buffer2"
  shows "let now1 = currentTime (contexts s ctx);
             start1 = max (nextStartTimeRef s) now1;
             s1 = snd (onmessage first s);
             s1' = run es s1;
             now2 = currentTime (contexts s1' ctx);
             s2 = snd (onmessage second s1');
             start2 = startTime (sourceNodes s2 (fresh s1'))
         in fst (onmessage first s) = None \<and> fst (onmessage second s1') = None \<and>
            startTime (sourceNodes s1 (fresh s)) = Some start1 \<and>
            buffer (sourceNodes s1 (fresh s)) = buffer1 \<and>
            nextStartTimeRef s1 = start1 + duration buffer1 \<and>
            start2 = Some (max (start1 + duration buffer1) now2) \<and>
            (now2 \<le> start1 + duration buffer1 \<longrightarrow> start2 = Some (start1 + duration buffer1)) \<and>
            (start1 + duration buffer1 < now2 \<longrightarrow> start2 = Some now2) \<and>
            nextStartTimeRef s2 = max (start1 + duration buffer1) now2 + duration buffer2"
proof -
  let ?start1 = "max (nextStartTimeRef s) (currentTime (contexts s ctx))"
  let ?s1 = "snd (onmessage first s)"
  let ?s1' = "run es ?s1"
  let ?now2 = "currentTime (contexts ?s1' ctx)"
  let ?s2 = "snd (onmessage second ?s1')"
  have first: "onmessage first s =
      (None, s\<lparr>sourceNodes := (sourceNodes s)
                  (fresh s := \<lparr>buffer = buffer1, startTime = Some ?start1, stopped = False\<rparr>),
                fresh := fresh s + 1,
                nextStartTimeRef := ?start1 + duration buffer1,
                activeSourcesRef := setAdd (fresh s) (activeSourcesRef s)\<rparr>)"
    using assms(3) onmessageAudio_scheduled [OF assms(1,2,4)]
    by (simp add: onmessage_not_interrupted)
  then have s1: "fst (onmessage first s) = None" "startTime (sourceNodes ?s1 (fresh s)) = Some ?start1"
    "buffer (sourceNodes ?s1 (fresh s)) = buffer1"
    "nextStartTimeRef ?s1 = ?start1 + duration buffer1" "outputContextRef ?s1 = Some ctx"
    using assms(1) by simp_all
  from quiet_run [OF assms(5), of ?s1] s1
  have s1': "nextStartTimeRef ?s1' = ?start1 + duration buffer1" "outputContextRef ?s1' = Some ctx"
    by simp_all
  have second: "onmessage second ?s1' =
      (None, ?s1'\<lparr>sourceNodes := (sourceNodes ?s1')
                  (fresh ?s1' := \<lparr>buffer = buffer2,
                     startTime = Some (max (?start1 + duration buffer1) ?now2), stopped = False\<rparr>),
                fresh := fresh ?s1' + 1,
                nextStartTimeRef := max (?start1 + duration buffer1) ?now2 + duration buffer2,
                activeSourcesRef := setAdd (fresh ?s1') (activeSourcesRef ?s1')\<rparr>)"
    using assms(7) onmessageAudio_scheduled [OF s1'(2) assms(6,8)]
    by (simp add: onmessage_not_interrupted s1'(1))
  then have s2: "fst (onmessage second ?s1') = None"
    "startTime (sourceNodes ?s2 (fresh ?s1')) = Some (max (?start1 + duration buffer1) ?now2)"
    "nextStartTimeRef ?s2 = max (?start1 + duration buffer1) ?now2 + duration buffer2"
    by simp_all
  have "?now2 \<le> ?start1 + duration buffer1 \<Longrightarrow>
      max (?start1 + duration buffer1) ?now2 = ?start1 + duration buffer1"
    and "?start1 + duration buffer1 < ?now2 \<Longrightarrow> max (?start1 + duration buffer1) ?now2 = ?now2"
    by (simp_all add: max_def)
  with s1 s2 show ?thesis unfolding Let_def by simp
qed

lemma listening_state:
  "outputContextRef (run listening initialState) = Some 2"
  "contexts (run listening initialState) 2 = exampleContext\<lparr>currentTime := 1 / 2\<rparr>"
  "nextStartTimeRef (run listening initialState) = 0"
  "activeSourcesRef (run listening initialState) = []"
  "fresh (run listening initialState) = 6"
  unfolding listening_def run_append sessionStarted_state
  by (simp_all add: initialState_def currentTime_exampleContext)

lemma firstChunkPlaying_listening:
  "run firstChunkPlaying initialState = snd (onmessage chunk (run listening initialState))"
  by (simp add: firstChunkPlaying_def listening_def run_append)

lemma firstChunkPlaying_context:
  "contexts (run firstChunkPlaying initialState) 2 = exampleContext\<lparr>currentTime := 1 / 2\<rparr>"
  unfolding firstChunkPlaying_listening
  by (simp add: onmessage_not_interrupted chunk_def onmessageAudio_frame listening_state)

theorem gapless_schedule_witness:
  "outputContextRef (run listening initialState) = Some 2 \<and>
   nextStartTimeRef (run listening initialState) = 0 \<and>
   currentTime (contexts (run listening initialState) 2) = 1 / 2 \<and>
   startTime (sourceNodes (snd (onmessage chunk (run listening initialState))) 6) = Some (1 / 2) \<and>
   nextStartTimeRef (snd (onmessage chunk (run listening initialState))) = 1 / 2 + duration chunkBuffer \<and>
   startTime (sourceNodes
      (snd (onmessage chunk
         (run [Clock 2 (12001 / 24000)] (snd (onmessage chunk (run listening initialState)))))) 7)
     = Some (1 / 2 + duration chunkBuffer) \<and>
   startTime (sourceNodes
      (snd (onmessage chunk
         (run [Clock 2 1] (snd (onmessage chunk (run listening initialState)))))) 7)
     = Some 1"
proof -
  define s where "s = run listening initialState"
  define early where "early = run [Clock 2 (12001 / 24000)] (snd (onmessage chunk s))"
  define late where "late = run [Clock 2 1] (snd (onmessage chunk s))"
  note st = listening_state [folded s_def]
  note playing = firstChunkPlaying_state [unfolded firstChunkPlaying_listening, folded s_def]
    firstChunkPlaying_context [unfolded firstChunkPlaying_listening, folded s_def]
  have audio: "inlineAudio chunk = Some (Text [0, 0, 0, 64])" and quietly: "\<not> interrupted chunk"
    by (simp_all add: chunk_def)
  have d1: "decodeAudio (contexts s 2) (Text [0, 0, 0, 64]) = Inr chunkBuffer"
    by (simp only: st decodeAudio_clock decode_chunk)
  have q: "list_all quiet [Clock 2 (12001 / 24000)]" "list_all quiet [Clock 2 1]"
    by simp_all
  have e: "fresh early = 7" "currentTime (contexts early 2) = 12001 / 24000"
    "contexts early 2 = exampleContext\<lparr>currentTime := 12001 / 24000\<rparr>"
    unfolding early_def by (simp_all add: playing)
  have l: "fresh late = 7" "currentTime (contexts late 2) = 1"
    "contexts late 2 = exampleContext\<lparr>currentTime := 1\<rparr>"
    unfolding late_def by (simp_all add: playing)
  have d2: "decodeAudio (contexts early 2) (Text [0, 0, 0, 64]) = Inr chunkBuffer"
    "decodeAudio (contexts late 2) (Text [0, 0, 0, 64]) = Inr chunkBuffer"
    by (simp_all only: e l decodeAudio_clock decode_chunk)
  from gapless_schedule [OF st(1) audio quietly d1 q(1) audio quietly d2(1) [unfolded early_def]]
  have "startTime (sourceNodes (snd (onmessage chunk s)) 6) = Some (1 / 2)"
    "nextStartTimeRef (snd (onmessage chunk s)) = 1 / 2 + duration chunkBuffer"
    "startTime (sourceNodes (snd (onmessage chunk early)) 7) = Some (1 / 2 + duration chunkBuffer)"
    unfolding Let_def early_def [symmetric]
    by (simp_all add: st e currentTime_exampleContext duration_chunkBuffer)
  moreover
  from gapless_schedule [OF st(1) audio quietly d1 q(2) audio quietly d2(2) [unfolded late_def]]
  have "startTime (sourceNodes (snd (onmessage chunk late)) 7) = Some 1"
    unfolding Let_def late_def [symmetric]
    by (simp add: st l currentTime_exampleContext duration_chunkBuffer)
  ultimately show ?thesis
    using st by (simp add: s_def early_def late_def)
qed



lemma firstChunkPlaying_active: "isActive (run firstChunkPlaying initialState)"
  unfolding firstChunkPlaying_listening listening_def run_append sessionStarted_state
  by (simp add: onmessage_not_interrupted chunk_def onmessageAudio_def Let_def
      split: option.splits sum.splits)





lemma onmessageInterrupted_nextStart:
  "nextStartTimeRef (snd (onmessageInterrupted message s)) = nextStartTimeRef s \<or>
   (interrupted message \<and>
    (\<exists>ctx. outputContextRef s = Some ctx \<and>
       nextStartTimeRef (snd (onmessageInterrupted message s)) = currentTime (contexts s ctx)))"
proof (cases "interrupted message")
  case False
  then show ?thesis by (simp add: onmessageInterrupted_def)
next
  case True
  let ?r = "forEach stopSource (activeSourcesRef s) s"
  from forEach_stopSource_sourceNodes [of "activeSourcesRef s" s] obtain g where
    g: "snd ?r = s\<lparr>sourceNodes := g\<rparr>" by auto
  show ?thesis
  proof (cases "fst ?r")
    case None
    with True g show ?thesis
      by (cases "outputContextRef s") (simp_all add: onmessageInterrupted_def andThen_def Let_def)
  next
    case (Some e)
    with True g show ?thesis
      by (simp add: onmessageInterrupted_def andThen_def)
  qed
qed

lemma onmessage_nextStart:
  assumes "nextStartTimeRef (snd (onmessage message s)) < nextStartTimeRef s"
  shows "interrupted message \<and>
    (\<exists>ctx. outputContextRef s = Some ctx \<and>
       nextStartTimeRef (snd (onmessage message s)) = currentTime (contexts s ctx))"
proof -
  let ?s1 = "snd (onmessageAudio message s)"
  have mono: "nextStartTimeRef s \<le> nextStartTimeRef ?s1" by (rule onmessageAudio_monotone)
  have ok: "fst (onmessageAudio message s) = None"
  proof (rule ccontr)
    assume "fst (onmessageAudio message s) \<noteq> None"
    then have "onmessage message s = onmessageAudio message s" by (rule onmessage_audio_failed)
    with assms mono show False by simp
  qed
  then have eq: "onmessage message s = onmessageInterrupted message ?s1"
    by (rule onmessage_audio_ok)
  from onmessageInterrupted_nextStart [of message ?s1] assms mono
  show ?thesis unfolding eq by (auto simp add: onmessageAudio_frame)
qed

lemma onmessage_monotone:
  "\<not> interrupted message \<Longrightarrow> nextStartTimeRef s \<le> nextStartTimeRef (snd (onmessage message s))"
  by (simp add: onmessage_not_interrupted onmessageAudio_monotone)

lemma step_nextStart:
  assumes "nextStartTimeRef (snd (step e s)) < nextStartTimeRef s"
  shows "(\<exists>message ctx. e = ServerMessage message \<and> interrupted message \<and>
            outputContextRef s = Some ctx \<and>
            nextStartTimeRef (snd (step e s)) = currentTime (contexts s ctx)) \<or>
         (\<exists>inputCtx outputCtx. e = UserMedia Granted (Inr inputCtx) (Inr outputCtx) \<and>
            nextStartTimeRef (snd (step e s)) = currentTime outputCtx)"
proof (cases e)
  case (ToggleSession hasApiKey)
  with assms show ?thesis
    by (simp add: toggleSession_def startSession_def stopSession_after split: if_splits)
next
  case (UserMedia media newInput newOutput)
  with assms show ?thesis
    by (cases media; cases newInput; cases newOutput)
      (simp_all add: startSessionResume_nextStart)
next
  case Open
  with assms show ?thesis by (simp add: onopen_def)
next
  case (ServerMessage message)
  with assms onmessage_nextStart [of message s] show ?thesis by simp
next
  case (SourceEnded source)
  with assms show ?thesis by (simp add: onended_def)
next
  case (StartScreenShare supported)
  with assms show ?thesis by (simp add: startScreenShare_def split: if_splits)
next
  case (DisplayMedia media hasVideoTrack)
  with assms startScreenShareResume_sameSchedule [of s media hasVideoTrack] show ?thesis
    by (simp add: sameSchedule_def)
next
  case StopScreenShare
  with assms stopScreenShare_sameSchedule [of s] show ?thesis by (simp add: sameSchedule_def)
next
  case TrackEnded
  with assms stopScreenShare_sameSchedule [of s] show ?thesis by (simp add: sameSchedule_def)
next
  case (Clock ctx t)
  with assms show ?thesis by simp
qed (use assms in \<open>simp_all add: stopSession_after\<close>)

lemma bargeIn_first_chunk:
  "fst (onmessage bargeIn (run firstChunkPlaying initialState)) = None"
  "activeSourcesRef (snd (onmessage bargeIn (run firstChunkPlaying initialState))) = []"
  "stopped (sourceNodes (snd (onmessage bargeIn (run firstChunkPlaying initialState))) 6)"
  "nextStartTimeRef (snd (onmessage bargeIn (run firstChunkPlaying initialState))) = 1 / 2"
proof -
  let ?p = "run firstChunkPlaying initialState"
  have i: "interrupted bargeIn" by (simp add: bargeIn_def)
  have "onmessageAudio bargeIn ?p = (None, ?p)"
    by (simp add: onmessageAudio_def bargeIn_def)
  then have eq: "onmessage bargeIn ?p = onmessageInterrupted bargeIn ?p"
    by (simp add: onmessage_audio_ok)
  have "activeStarted ?p"
    using initialState_activeStarted by (rule run_activeStarted)
  note res = onmessageInterrupted_result [OF i this]
  show "fst (onmessage bargeIn ?p) = None" "activeSourcesRef (snd (onmessage bargeIn ?p)) = []"
    unfolding eq by (rule res(1), rule res(2))
  show "stopped (sourceNodes (snd (onmessage bargeIn ?p)) 6)"
    using res(3) unfolding eq by (simp add: firstChunkPlaying_state)
  show "nextStartTimeRef (snd (onmessage bargeIn ?p)) = 1 / 2"
    unfolding eq res(4) by (simp add: firstChunkPlaying_state)
qed

text \<open>
  Claim C4, as the code has it.  A message that reports no interruption never lowers
  \<open>nextStartTimeRef\<close>, whether it schedules audio or not.  And of all the callbacks of the
  component, only two can lower it: \<open>onmessage\<close> on a message that reports an interruption,
  which sets it to the clock of the output context, and the resumption of \<open>startSession\<close>
  with a granted microphone and two new contexts, which sets it to the clock of the new
  output context.
\<close>

theorem nextStart_lowered_only_by_reset:
  "(\<not> interrupted message \<longrightarrow>
      nextStartTimeRef s \<le> nextStartTimeRef (snd (onmessage message s))) \<and>
   (nextStartTimeRef (snd (step e s)) < nextStartTimeRef s \<longrightarrow>
      (\<exists>message ctx. e = ServerMessage message \<and> interrupted message \<and>
          outputContextRef s = Some ctx \<and>
          nextStartTimeRef (snd (step e s)) = currentTime (contexts s ctx)) \<or>
      (\<exists>inputCtx outputCtx. e = UserMedia Granted (Inr inputCtx) (Inr outputCtx) \<and>
          nextStartTimeRef (snd (step e s)) = currentTime outputCtx))"
  using onmessage_monotone [of message s] step_nextStart [of e s] by blast

theorem nextStart_lowered_only_by_reset_witness:
  "\<not> interrupted chunk \<and>
   nextStartTimeRef (run listening initialState) = 0 \<and>
   nextStartTimeRef (run listening initialState)
     \<le> nextStartTimeRef (snd (onmessage chunk (run listening initialState))) \<and>
   nextStartTimeRef (run firstChunkPlaying initialState) = 1 / 2 + 1 / 12000 \<and>
   nextStartTimeRef (snd (step (ServerMessage bargeIn) (run firstChunkPlaying initialState))) = 1 / 2 \<and>
   interrupted bargeIn \<and>
   (\<exists>ctx. outputContextRef (run firstChunkPlaying initialState) = Some ctx \<and>
      nextStartTimeRef (snd (step (ServerMessage bargeIn) (run firstChunkPlaying initialState))) =
        currentTime (contexts (run firstChunkPlaying initialState) ctx))"
proof -
  let ?p = "run firstChunkPlaying initialState"
  have c: "\<not> interrupted chunk" by (simp add: chunk_def)
  have b: "nextStartTimeRef (snd (step (ServerMessage bargeIn) ?p)) = 1 / 2"
    by (simp add: bargeIn_first_chunk)
  then have lower: "nextStartTimeRef (snd (step (ServerMessage bargeIn) ?p)) < nextStartTimeRef ?p"
    by (simp add: firstChunkPlaying_state)
  from nextStart_lowered_only_by_reset [of chunk "run listening initialState"] c
  have "nextStartTimeRef (run listening initialState)
     \<le> nextStartTimeRef (snd (onmessage chunk (run listening initialState)))"
    by blast
  moreover
  from nextStart_lowered_only_by_reset [of _ ?p "ServerMessage bargeIn"] lower
  have "interrupted bargeIn \<and> (\<exists>ctx. outputContextRef ?p = Some ctx \<and>
      nextStartTimeRef (snd (step (ServerMessage bargeIn) ?p)) = currentTime (contexts ?p ctx))"
    by auto
  ultimately show ?thesis
    using c b by (simp add: listening_state firstChunkPlaying_state)
qed

text \<open>
  The specification lets only the interruption lower \<open>nextStartTimeRef\<close>.  A second session
  lowers it as well: after a first session has played a chunk and has been stopped,
  \<open>nextStartTimeRef\<close> still holds the end of that chunk, and the start of the next session
  sets it to the clock of its new output context.
\<close>

theorem restart_lowers_nextStart:
  "nextStartTimeRef (run restart initialState) = 1 / 2 + 1 / 12000 \<and>
   nextStartTimeRef
     (snd (step (UserMedia Granted (Inr exampleContext) (Inr exampleContext))
        (run restart initialState))) = 0"
proof -
  let ?p = "run firstChunkPlaying initialState"
  have "run restart initialState = snd (toggleSession True (snd (stopSession ?p)))"
    by (simp add: restart_def run_append toggleSession_def firstChunkPlaying_active)
  moreover have "\<not> isActive (snd (stopSession ?p))" "\<not> isConnecting (snd (stopSession ?p))"
    using stopSession_result [of ?p] by auto
  ultimately have "run restart initialState = (snd (stopSession ?p))\<lparr>isConnecting := True\<rparr>"
    by (simp add: toggleSession_def startSession_def)
  then show ?thesis
    by (simp add: stopSession_after firstChunkPlaying_state startSessionResume_nextStart
        currentTime_exampleContext)
qed

text \<open>
  Claim C6.  From every state of the component, the states between the parts of
  \<open>startSession\<close> and those a teardown has left included, \<open>stopSession\<close> ends without an
  exception and leaves every resource handle null and the active set empty; so does a
  second \<open>stopSession\<close> right after it.
\<close>

theorem stopSession_never_throws:
  "fst (stopSession s) = None \<and> released (snd (stopSession s)) \<and>
   fst (stopSession (snd (stopSession s))) = None \<and>
   released (snd (stopSession (snd (stopSession s))))"
  by (simp add: stopSession_after)

lemma sharedThenStopped_state:
  "fst (step (ToggleSession True)
     (run (sessionStarted @ [StartScreenShare True, DisplayMedia Granted True]) initialState)) = None"
  "streams (run sharedThenStopped initialState) 0 = \<lparr>device = Microphone, live = True\<rparr>"
  "streams (run sharedThenStopped initialState) 6 = \<lparr>device = Display, live = False\<rparr>"
  "closedContexts (run sharedThenStopped initialState) = {1, 2}"
  "isActive (run sharedThenStopped initialState) = False"
  unfolding sharedThenStopped_def run_append sessionStarted_state
  by (simp_all add: initialState_def startScreenShare_def startScreenShareResume_def tryFinally_def
      toggleSession_def stopSession_def stopScreenShare_def release_def clearIntervalOf_def
      stopTracksOf_def clearVideo_def closeContextOf_def disconnectOf_def stopAllPlaying_def
      Let_def small_numerals insert_commute)

lemma teardown_after_start:
  "released (run (sessionStarted @ [teardown]) initialState) \<and>
   \<not> isActive (run (sessionStarted @ [teardown]) initialState) \<and>
   streams (run (sessionStarted @ [teardown]) initialState) 0 = \<lparr>device = Microphone, live = True\<rparr>"
  if "teardown \<in> {ToggleSession True, Closed, Failed, Unmount}"
proof -
  let ?s = "run sessionStarted initialState"
  have st: "streams (snd (stopSession ?s)) 0 = \<lparr>device = Microphone, live = True\<rparr>"
    unfolding sessionStarted_state
    by (simp add: initialState_def stopSession_def stopScreenShare_def release_def
        clearVideo_def closeContextOf_def disconnectOf_def stopAllPlaying_def)
  have "isActive ?s" unfolding sessionStarted_state by simp
  with that have "run (sessionStarted @ [teardown]) initialState = snd (stopSession ?s)"
    by (auto simp add: run_append toggleSession_def)
  with st stopSession_result [of ?s] show ?thesis by auto
qed

text \<open>
  Claim C9 fails on the code.  After a session has started, every teardown (the stop
  button, the remote close, the remote error, the unmount) leaves all handles null and
  the session inactive, and the microphone stream that \<open>getUserMedia\<close> gave is still
  live: \<open>stopSession\<close> closes the contexts and disconnects the nodes, and nothing ever stops
  the tracks of that stream.  The display stream of a screen share, torn down by the
  same \<open>stopSession\<close> through \<open>stopScreenShare\<close>, is stopped.
\<close>

theorem microphone_live_after_teardown:
  "list_all
     (\<lambda>teardown.
        released (run (sessionStarted @ [teardown]) initialState) \<and>
        \<not> isActive (run (sessionStarted @ [teardown]) initialState) \<and>
        streams (run (sessionStarted @ [teardown]) initialState) 0 =
          \<lparr>device = Microphone, live = True\<rparr>)
     [ToggleSession True, Closed, Failed, Unmount] \<and>
   streams (run sharedThenStopped initialState) 0 = \<lparr>device = Microphone, live = True\<rparr> \<and>
   streams (run sharedThenStopped initialState) 6 = \<lparr>device = Display, live = False\<rparr>"
  by (simp add: teardown_after_start sharedThenStopped_state)

section \<open>Properties of the narrator\<close>

lemma ttsRun_append: "ttsRun (es @ es') s = ttsRun es' (ttsRun es s)"
  by (induction es arbitrary: s) simp_all

lemma playTTS_skipped:
  "apiKey = None \<or> apiKey = Some [] \<or> text = [] \<Longrightarrow>
   playTTS apiKey text s = s\<lparr>nextCall := nextCall s + 1, calls := (calls s)(nextCall s := Resolved True)\<rparr>"
  by (auto simp add: playTTS_def Let_def)

lemma playTTS_issued:
  assumes "apiKey \<noteq> None" "apiKey \<noteq> Some []" "text \<noteq> []"
  shows "playTTS apiKey text s =
     s\<lparr>nextCall := nextCall s + 1,
       currentPlaybackId := currentPlaybackId s + 1,
       stoppedSources := (case currentSource s of
                            Some source \<Rightarrow> insert source (stoppedSources s)
                          | None \<Rightarrow> stoppedSources s),
       currentSource := None,
       requests := requests s @ [(nextCall s, text)],
       calls := (calls s)(nextCall s := Fetching (currentPlaybackId s + 1))\<rparr>"
  using assms by (cases apiKey; cases "currentSource s") (simp_all add: playTTS_def Let_def)

lemma ttsStep_nextCall: "nextCall s \<le> nextCall (ttsStep e s)"
  by (cases e)
    (auto simp add: playTTS_def stopTTS_def playTTSResume_def playTTSEnded_def getAudioContext_def
      Let_def split: option.splits call_phase.splits synthesis.splits sum.splits)

lemma ttsStep_token: "currentPlaybackId s \<le> currentPlaybackId (ttsStep e s)"
  by (cases e)
    (auto simp add: playTTS_def stopTTS_def playTTSResume_def playTTSEnded_def getAudioContext_def
      Let_def split: option.splits call_phase.splits synthesis.splits sum.splits)

lemma ttsStep_token_kept:
  "\<not> supersedes e \<Longrightarrow> currentPlaybackId (ttsStep e s) = currentPlaybackId s"
  by (cases e)
    (auto simp add: playTTS_def playTTSResume_def playTTSEnded_def getAudioContext_def
      Let_def split: option.splits call_phase.splits synthesis.splits sum.splits)

lemma ttsStep_other_call:
  "\<not> about call e \<Longrightarrow> call < nextCall s \<Longrightarrow> calls (ttsStep e s) call = calls s call"
  by (cases e)
    (auto simp add: playTTS_def stopTTS_def playTTSResume_def playTTSEnded_def getAudioContext_def
      Let_def split: option.splits call_phase.splits synthesis.splits sum.splits)

lemma ttsRun_others:
  "list_all (\<lambda>e. \<not> about call e) es \<Longrightarrow> call < nextCall s \<Longrightarrow>
   calls (ttsRun es s) call = calls s call \<and>
   currentPlaybackId s \<le> currentPlaybackId (ttsRun es s) \<and> call < nextCall (ttsRun es s)"
proof (induction es arbitrary: s)
  case Nil
  then show ?case by simp
next
  case (Cons e es)
  from Cons.prems have e: "\<not> about call e" and es: "list_all (\<lambda>e. \<not> about call e) es" by simp_all
  have n: "call < nextCall (ttsStep e s)"
    using Cons.prems(2) ttsStep_nextCall [of s e] by simp
  from Cons.IH [OF es n] ttsStep_other_call [OF e Cons.prems(2)] ttsStep_token [of s e]
  show ?case by simp
qed

lemma ttsRun_quiet:
  "list_all (\<lambda>e. \<not> about call e \<and> \<not> supersedes e) es \<Longrightarrow> call < nextCall s \<Longrightarrow>
   calls (ttsRun es s) call = calls s call \<and>
   currentPlaybackId (ttsRun es s) = currentPlaybackId s \<and> call < nextCall (ttsRun es s)"
proof (induction es arbitrary: s)
  case Nil
  then show ?case by simp
next
  case (Cons e es)
  from Cons.prems have e: "\<not> about call e" "\<not> supersedes e"
    and es: "list_all (\<lambda>e. \<not> about call e \<and> \<not> supersedes e) es" by simp_all
  have n: "call < nextCall (ttsStep e s)"
    using Cons.prems(2) ttsStep_nextCall [of s e] by simp
  from Cons.IH [OF es n] ttsStep_other_call [OF e(1) Cons.prems(2)] ttsStep_token_kept [OF e(2), of s]
  show ?case by simp
qed

lemma playTTSResume_stale:
  "calls s call = Fetching n \<Longrightarrow> n \<noteq> currentPlaybackId s \<Longrightarrow>
   calls (playTTSResume call response newContext s) call = Resolved False"
  by (cases response) (simp_all add: playTTSResume_def)

lemma getAudioContext_state:
  "getAudioContext newContext s = Inr (ctx, s1) \<Longrightarrow> s1 = s\<lparr>audioContext := Some ctx\<rparr>"
  by (auto simp add: getAudioContext_def split: option.splits sum.splits)

lemma playTTSResume_current:
  assumes "calls s call = Fetching n" "n = currentPlaybackId s"
  shows "playTTSResume call (Answered (Some audio)) newContext s =
     (case getAudioContext newContext s of
        Inl e \<Rightarrow> s\<lparr>calls := (calls s)(call := Resolved True)\<rparr>
      | Inr (ctx, s1) \<Rightarrow>
          (case decodeAudio ctx audio of
             Inl e \<Rightarrow> s\<lparr>audioContext := Some ctx, calls := (calls s)(call := Resolved True)\<rparr>
           | Inr audioBuffer \<Rightarrow>
               s\<lparr>audioContext := Some ctx, currentSource := Some call,
                 calls := (calls s)(call := Playing n)\<rparr>))"
proof (cases "getAudioContext newContext s")
  case (Inl e)
  with assms show ?thesis by (simp add: playTTSResume_def)
next
  case (Inr p)
  obtain ctx s1 where p: "p = (ctx, s1)" by (cases p)
  with Inr have s1: "s1 = s\<lparr>audioContext := Some ctx\<rparr>" by (simp add: getAudioContext_state)
  show ?thesis
    using assms Inr p
    by (cases "decodeAudio ctx audio") (simp_all add: playTTSResume_def s1)
qed

lemma playTTSResume_failed:
  assumes "calls s call = Fetching n"
    and "response = Rejected \<or> (\<exists>audio. response = Answered (Some audio) \<and> \<not> playable s newContext audio)"
  shows "calls (playTTSResume call response newContext s) call = Resolved (n = currentPlaybackId s) \<and>
    currentPlaybackId (playTTSResume call response newContext s) = currentPlaybackId s \<and>
    currentSource (playTTSResume call response newContext s) = currentSource s"
proof (cases "n = currentPlaybackId s")
  case False
  with assms show ?thesis by (auto simp add: playTTSResume_def)
next
  case True
  from assms(2) show ?thesis
  proof
    assume "response = Rejected"
    with assms(1) True show ?thesis by (simp add: playTTSResume_def)
  next
    assume "\<exists>audio. response = Answered (Some audio) \<and> \<not> playable s newContext audio"
    then obtain audio where r: "response = Answered (Some audio)"
      and np: "\<not> playable s newContext audio" by blast
    show ?thesis
    proof (cases "getAudioContext newContext s")
      case (Inl e)
      then show ?thesis
        unfolding r playTTSResume_current [OF assms(1) True] using True by simp
    next
      case (Inr p)
      obtain ctx s1 where p: "p = (ctx, s1)" by (cases p)
      from np Inr p obtain e where "decodeAudio ctx audio = Inl e"
        by (cases "decodeAudio ctx audio") (simp_all add: playable_def)
      with Inr p show ?thesis
        unfolding r playTTSResume_current [OF assms(1) True] using True by simp
    qed
  qed
qed

lemma playTTSResume_plays:
  assumes "calls s call = Fetching n" "n = currentPlaybackId s" "playable s newContext audio"
  shows "calls (playTTSResume call (Answered (Some audio)) newContext s) call = Playing n \<and>
    currentPlaybackId (playTTSResume call (Answered (Some audio)) newContext s) = currentPlaybackId s \<and>
    nextCall (playTTSResume call (Answered (Some audio)) newContext s) = nextCall s \<and>
    currentSource (playTTSResume call (Answered (Some audio)) newContext s) = Some call"
proof (cases "getAudioContext newContext s")
  case (Inl e)
  with assms(3) show ?thesis by (simp add: playable_def)
next
  case (Inr p)
  obtain ctx s1 where p: "p = (ctx, s1)" by (cases p)
  from assms(3) Inr p obtain audioBuffer where "decodeAudio ctx audio = Inr audioBuffer"
    by (cases "decodeAudio ctx audio") (simp_all add: playable_def)
  with Inr p show ?thesis
    unfolding playTTSResume_current [OF assms(1,2)] by simp
qed

lemma playTTSEnded_result:
  "calls s call = Playing n \<Longrightarrow>
   calls (playTTSEnded call s) call = Resolved (currentPlaybackId s = n)"
  by (simp add: playTTSEnded_def)

lemma ttsStep_starts_playing:
  assumes "calls s call = Fetching n" "calls (ttsStep e s) call = Playing m"
  shows "m = n \<and> currentPlaybackId s = n"
proof (cases e)
  case (PlayTTS apiKey narration)
  with assms show ?thesis
    by (cases "call = nextCall s"; cases "currentSource s")
      (auto simp add: playTTS_def Let_def split: if_splits)
next
  case StopTTS
  with assms show ?thesis by (simp add: stopTTS_def Let_def split: option.splits)
next
  case (Settled call' response newContext)
  show ?thesis
  proof (cases "call' = call")
    case True
    show ?thesis
    proof (cases "n = currentPlaybackId s")
      case False
      with assms(1) have "calls (ttsStep e s) call = Resolved False"
        unfolding Settled True by (simp add: playTTSResume_stale)
      with assms(2) show ?thesis by simp
    next
      case cur: True
      show ?thesis
      proof (cases response)
        case Rejected
        with assms cur show ?thesis unfolding Settled True by (simp add: playTTSResume_def)
      next
        case (Answered base64Audio)
        show ?thesis
        proof (cases base64Audio)
          case None
          with assms cur Answered show ?thesis unfolding Settled True by (simp add: playTTSResume_def)
        next
          case (Some audio)
          from assms(2) have "calls (playTTSResume call (Answered (Some audio)) newContext s) call = Playing m"
            unfolding Settled True Answered Some by simp
          then show ?thesis
            unfolding playTTSResume_current [OF assms(1) cur] using cur
            by (simp split: sum.splits prod.splits)
        qed
      qed
    qed
  next
    case False
    with assms show ?thesis
      unfolding Settled
      by (auto simp add: playTTSResume_def getAudioContext_def
          split: call_phase.splits synthesis.splits option.splits sum.splits if_splits)
  qed
next
  case (PlaybackEnded call')
  with assms show ?thesis
    by (auto simp add: playTTSEnded_def split: call_phase.splits if_splits)
qed

lemma ttsStep_resolves_true:
  assumes "call < nextCall s" "calls s call = Fetching n \<or> calls s call = Playing n"
    and "calls (ttsStep e s) call = Resolved True"
  shows "currentPlaybackId s = n"
proof (cases "about call e")
  case False
  from ttsStep_other_call [OF False assms(1)] assms(2,3) show ?thesis by auto
next
  case True
  then consider (settled) response newContext where "e = Settled call response newContext"
    | (ended) "e = PlaybackEnded call"
    by (cases e) auto
  then show ?thesis
  proof cases
    case settled
    from assms(2) show ?thesis
    proof
      assume f: "calls s call = Fetching n"
      show ?thesis
      proof (rule ccontr)
        assume "currentPlaybackId s \<noteq> n"
        then have "n \<noteq> currentPlaybackId s" by simp
        from playTTSResume_stale [OF f this] assms(3) show False
          unfolding settled by simp
      qed
    next
      assume "calls s call = Playing n"
      with assms(3) show ?thesis unfolding settled by (simp add: playTTSResume_def)
    qed
  next
    case ended
    from assms(2) show ?thesis
    proof
      assume "calls s call = Fetching n"
      with assms(3) show ?thesis unfolding ended by (simp add: playTTSEnded_def)
    next
      assume "calls s call = Playing n"
      from playTTSEnded_result [OF this] assms(3) show ?thesis unfolding ended by simp
    qed
  qed
qed

lemma two_requests:
  assumes "apiKey \<noteq> None" "apiKey \<noteq> Some []" "text1 \<noteq> []" "text2 \<noteq> []"
  shows "calls (ttsRun [PlayTTS apiKey text1, PlayTTS apiKey text2] s) (nextCall s) =
           Fetching (currentPlaybackId s + 1)"
    and "calls (ttsRun [PlayTTS apiKey text1, PlayTTS apiKey text2] s) (nextCall s + 1) =
           Fetching (currentPlaybackId s + 2)"
    and "currentPlaybackId (ttsRun [PlayTTS apiKey text1, PlayTTS apiKey text2] s) =
           currentPlaybackId s + 2"
    and "nextCall (ttsRun [PlayTTS apiKey text1, PlayTTS apiKey text2] s) = nextCall s + 2"
  by (simp_all add: playTTS_issued [OF assms(1,2,3)] playTTS_issued [OF assms(1,2,4)])

text \<open>
  Claim C2.  Let two requests with a key and a text be issued one after the other from any
  state of the module; they capture the tokens \<open>N\<close> and \<open>N + 1\<close>.  Whatever else happens
  before the synthesis request of the first settles, and however it settles, the first
  call resolves to \<open>false\<close>.  If nothing supersedes the second request (no \<open>stopTTS\<close>, no
  further \<open>playTTS\<close> with a key and a text) until its answer has arrived with audio that
  can be played and its source has ended, the second call resolves to \<open>true\<close>.  In general
  the token never decreases; a call starts playing only when its token is the current
  one as its request settles, and it resolves to \<open>true\<close> only when its token is the
  current one at that moment.
\<close>

theorem newer_request_cancels_older:
  assumes "apiKey \<noteq> None" "apiKey \<noteq> Some []" "text1 \<noteq> []" "text2 \<noteq> []"
    and "list_all (\<lambda>e. \<not> about (nextCall s) e) es1"
    and "list_all (\<lambda>e. \<not> about (nextCall s + 1) e \<and> \<not> supersedes e) es2"
    and "list_all (\<lambda>e. \<not> about (nextCall s + 1) e \<and> \<not> supersedes e) es3"
    and "playable (ttsRun es2 (ttsRun [PlayTTS apiKey text1, PlayTTS apiKey text2] s)) newContext audio"
  shows "(let first = nextCall s; second = nextCall s + 1; N = currentPlaybackId s + 1;
              s2 = ttsRun [PlayTTS apiKey text1, PlayTTS apiKey text2] s
          in calls s2 first = Fetching N \<and> calls s2 second = Fetching (N + 1) \<and>
             calls (ttsRun (es1 @ [Settled first response newContext1]) s2) first = Resolved False \<and>
             calls (ttsRun (es2 @ [Settled second (Answered (Some audio)) newContext] @ es3 @
                            [PlaybackEnded second]) s2) second = Resolved True) \<and>
         currentPlaybackId t \<le> currentPlaybackId (ttsStep e t) \<and>
         (calls t call = Fetching n \<and> calls (ttsStep e t) call = Playing m \<longrightarrow>
            m = n \<and> currentPlaybackId t = n) \<and>
         (call < nextCall t \<and> (calls t call = Fetching n \<or> calls t call = Playing n) \<and>
          calls (ttsStep e t) call = Resolved True \<longrightarrow> currentPlaybackId t = n)"
proof -
  let ?first = "nextCall s" and ?second = "nextCall s + 1"
  let ?s2 = "ttsRun [PlayTTS apiKey text1, PlayTTS apiKey text2] s"
  note two = two_requests [OF assms(1-4), of s]
  have lt: "?first < nextCall ?s2" "?second < nextCall ?s2" using two(4) by simp_all
  \<comment> \<open>the first call\<close>
  let ?a = "ttsRun es1 ?s2"
  from ttsRun_others [OF assms(5) lt(1)] two
  have a: "calls ?a ?first = Fetching (currentPlaybackId s + 1)"
    "currentPlaybackId s + 1 \<noteq> currentPlaybackId ?a"
    by simp_all
  have first: "calls (ttsRun (es1 @ [Settled ?first response newContext1]) ?s2) ?first = Resolved False"
    unfolding ttsRun_append using playTTSResume_stale [OF a] by simp
  \<comment> \<open>the second call\<close>
  let ?b = "ttsRun es2 ?s2"
  from ttsRun_quiet [OF assms(6) lt(2)] two
  have b: "calls ?b ?second = Fetching (currentPlaybackId s + 2)"
    "currentPlaybackId s + 2 = currentPlaybackId ?b" "?second < nextCall ?b"
    by simp_all
  let ?c = "playTTSResume ?second (Answered (Some audio)) newContext ?b"
  from playTTSResume_plays [OF b(1,2) assms(8)] b
  have c: "calls ?c ?second = Playing (currentPlaybackId s + 2)"
    "currentPlaybackId ?c = currentPlaybackId s + 2" "?second < nextCall ?c"
    by simp_all
  let ?d = "ttsRun es3 ?c"
  from ttsRun_quiet [OF assms(7) c(3)] c
  have d: "calls ?d ?second = Playing (currentPlaybackId s + 2)"
    "currentPlaybackId ?d = currentPlaybackId s + 2"
    by simp_all
  have second: "calls (ttsRun (es2 @ [Settled ?second (Answered (Some audio)) newContext] @ es3 @
      [PlaybackEnded ?second]) ?s2) ?second = Resolved True"
    unfolding ttsRun_append using playTTSEnded_result [OF d(1)] d(2) by simp
  have general: "(calls t call = Fetching n \<and> calls (ttsStep e t) call = Playing m \<longrightarrow>
            m = n \<and> currentPlaybackId t = n) \<and>
         (call < nextCall t \<and> (calls t call = Fetching n \<or> calls t call = Playing n) \<and>
          calls (ttsStep e t) call = Resolved True \<longrightarrow> currentPlaybackId t = n)"
    using ttsStep_starts_playing [of t call n e m] ttsStep_resolves_true [of call t n e] by blast
  from two(1,2) first second general ttsStep_token [of t e] show ?thesis
    unfolding Let_def by simp
qed

lemma someKey_valid: "someKey \<noteq> None" "someKey \<noteq> Some []"
  by (simp_all add: someKey_def)

lemma playable_fresh_context:
  "audioContext s = None \<Longrightarrow> playable s (Inr exampleContext) (Text [0, 0, 0, 64])"
  by (simp add: playable_def getAudioContext_def decode_chunk)

text \<open>
  Claim C5.  Let a call wait for its synthesis request with the token \<open>myPlaybackId\<close>, and
  let the request be rejected, or be answered with audio that cannot be played (the audio
  context cannot be made, the base64 text is malformed, or the bytes do not make a
  buffer).  Then the call is resolved, with \<open>true\<close> when its token is still the current
  one and with \<open>false\<close> when it is not; the token and the playing source are left as they
  were.
\<close>

theorem synthesis_failure_fails_open:
  assumes "calls s call = Fetching myPlaybackId"
    and "response = Rejected \<or>
         (\<exists>audio. response = Answered (Some audio) \<and> \<not> playable s newContext audio)"
  shows "calls (ttsStep (Settled call response newContext) s) call =
           Resolved (myPlaybackId = currentPlaybackId s) \<and>
         currentPlaybackId (ttsStep (Settled call response newContext) s) = currentPlaybackId s \<and>
         currentSource (ttsStep (Settled call response newContext) s) = currentSource s"
  using playTTSResume_failed [OF assms] by simp

lemma not_playable_examples:
  "\<not> playable s newContext Malformed"
  "\<not> playable s (Inr exampleContext) (Text [7])"
  "audioContext s = None \<Longrightarrow> \<not> playable s (Inl NotSupportedError) audio"
proof -
  show "\<not> playable s newContext Malformed"
    by (simp add: playable_def decodeAudio_def base64Decode_def split: sum.splits prod.splits)
  have "decodeAudio ctx (Text [7]) = Inl RangeError" for ctx
    by (simp add: decodeAudio_def base64Decode_def pcmToAudioBuffer_odd uint8ArrayOf_simps)
  then show "\<not> playable s (Inr exampleContext) (Text [7])"
    by (simp add: playable_def split: sum.splits prod.splits)
  show "audioContext s = None \<Longrightarrow> \<not> playable s (Inl NotSupportedError) audio"
    by (simp add: playable_def getAudioContext_def)
qed

lemma one_request:
  "calls (ttsRun [PlayTTS someKey ''hello''] ttsInitial) 0 = Fetching 1"
  "currentPlaybackId (ttsRun [PlayTTS someKey ''hello''] ttsInitial) = 1"
  "calls (ttsRun [PlayTTS someKey ''hello'', StopTTS] ttsInitial) 0 = Fetching 1"
  "currentPlaybackId (ttsRun [PlayTTS someKey ''hello'', StopTTS] ttsInitial) = 2"
  by (simp_all add: playTTS_issued someKey_valid ttsInitial_def stopTTS_def)

theorem synthesis_failure_fails_open_witness:
  "calls (ttsRun [PlayTTS someKey ''hello'', Settled 0 Rejected (Inr exampleContext)] ttsInitial) 0
     = Resolved True \<and>
   calls (ttsRun [PlayTTS someKey ''hello'', Settled 0 (Answered (Some Malformed)) (Inr exampleContext)]
            ttsInitial) 0 = Resolved True \<and>
   calls (ttsRun [PlayTTS someKey ''hello'', Settled 0 (Answered (Some (Text [7]))) (Inr exampleContext)]
            ttsInitial) 0 = Resolved True \<and>
   calls (ttsRun [PlayTTS someKey ''hello'', StopTTS, Settled 0 Rejected (Inr exampleContext)]
            ttsInitial) 0 = Resolved False \<and>
   calls (ttsRun [PlayTTS someKey ''hello'', StopTTS,
                  Settled 0 (Answered (Some Malformed)) (Inr exampleContext)] ttsInitial) 0
     = Resolved False"
proof -
  define s where "s = ttsRun [PlayTTS someKey ''hello''] ttsInitial"
  define t where "t = ttsRun [PlayTTS someKey ''hello'', StopTTS] ttsInitial"
  note one = one_request [folded s_def t_def]
  note live = synthesis_failure_fails_open [OF one(1)]
  note stale = synthesis_failure_fails_open [OF one(3)]
  have "calls (ttsStep (Settled 0 Rejected (Inr exampleContext)) s) 0 = Resolved True"
    using live [of Rejected "Inr exampleContext"] by (simp add: one)
  moreover
  have "calls (ttsStep (Settled 0 (Answered (Some Malformed)) (Inr exampleContext)) s) 0 = Resolved True"
    using live [of "Answered (Some Malformed)" "Inr exampleContext"]
    by (simp add: one not_playable_examples)
  moreover
  have "calls (ttsStep (Settled 0 (Answered (Some (Text [7]))) (Inr exampleContext)) s) 0 = Resolved True"
    using live [of "Answered (Some (Text [7]))" "Inr exampleContext"]
    by (simp add: one not_playable_examples)
  moreover
  have "calls (ttsStep (Settled 0 Rejected (Inr exampleContext)) t) 0 = Resolved False"
    using stale [of Rejected "Inr exampleContext"] by (simp add: one)
  moreover
  have "calls (ttsStep (Settled 0 (Answered (Some Malformed)) (Inr exampleContext)) t) 0 = Resolved False"
    using stale [of "Answered (Some Malformed)" "Inr exampleContext"]
    by (simp add: one not_playable_examples)
  ultimately show ?thesis by (simp add: s_def t_def)
qed

text \<open>
  Claim C10.  A \<open>playTTS\<close> call without a key or with an empty text is resolved with \<open>true\<close>
  at once and changes nothing else: the token, the list of synthesis requests, the playing
  source, the stopped sources, the audio context and every other call are as before; so
  an earlier call that is playing with the current token still resolves to \<open>true\<close> when
  its source ends.  A call with a key and a text takes the next token, stops the playing
  source and forgets it, and sends a synthesis request; the earlier call then resolves to
  \<open>false\<close>.
\<close>

theorem playTTS_without_key_or_text:
  "(apiKey = None \<or> apiKey = Some [] \<or> text = [] \<longrightarrow>
      calls (playTTS apiKey text s) (nextCall s) = Resolved True \<and>
      currentPlaybackId (playTTS apiKey text s) = currentPlaybackId s \<and>
      requests (playTTS apiKey text s) = requests s \<and>
      currentSource (playTTS apiKey text s) = currentSource s \<and>
      stoppedSources (playTTS apiKey text s) = stoppedSources s \<and>
      audioContext (playTTS apiKey text s) = audioContext s \<and>
      (\<forall>call. call \<noteq> nextCall s \<longrightarrow> calls (playTTS apiKey text s) call = calls s call) \<and>
      (\<forall>call. call < nextCall s \<and> calls s call = Playing (currentPlaybackId s) \<longrightarrow>
         calls (ttsRun [PlayTTS apiKey text, PlaybackEnded call] s) call = Resolved True)) \<and>
   (apiKey \<noteq> None \<and> apiKey \<noteq> Some [] \<and> text \<noteq> [] \<longrightarrow>
      calls (playTTS apiKey text s) (nextCall s) = Fetching (currentPlaybackId s + 1) \<and>
      currentPlaybackId (playTTS apiKey text s) = currentPlaybackId s + 1 \<and>
      requests (playTTS apiKey text s) = requests s @ [(nextCall s, text)] \<and>
      currentSource (playTTS apiKey text s) = None \<and>
      (\<forall>source. currentSource s = Some source \<longrightarrow> source \<in> stoppedSources (playTTS apiKey text s)) \<and>
      (\<forall>call. call < nextCall s \<and> calls s call = Playing (currentPlaybackId s) \<longrightarrow>
         calls (ttsRun [PlayTTS apiKey text, PlaybackEnded call] s) call = Resolved False))"
proof (intro conjI impI)
  assume skip: "apiKey = None \<or> apiKey = Some [] \<or> text = []"
  note eq = playTTS_skipped [OF skip, of s]
  show "calls (playTTS apiKey text s) (nextCall s) = Resolved True"
    "currentPlaybackId (playTTS apiKey text s) = currentPlaybackId s"
    "requests (playTTS apiKey text s) = requests s"
    "currentSource (playTTS apiKey text s) = currentSource s"
    "stoppedSources (playTTS apiKey text s) = stoppedSources s"
    "audioContext (playTTS apiKey text s) = audioContext s"
    "\<forall>call. call \<noteq> nextCall s \<longrightarrow> calls (playTTS apiKey text s) call = calls s call"
    unfolding eq by simp_all
  show "\<forall>call. call < nextCall s \<and> calls s call = Playing (currentPlaybackId s) \<longrightarrow>
      calls (ttsRun [PlayTTS apiKey text, PlaybackEnded call] s) call = Resolved True"
    unfolding ttsRun.simps ttsStep.simps eq by (simp add: playTTSEnded_def)
next
  assume "apiKey \<noteq> None \<and> apiKey \<noteq> Some [] \<and> text \<noteq> []"
  then have "apiKey \<noteq> None" "apiKey \<noteq> Some []" "text \<noteq> []" by simp_all
  note eq = playTTS_issued [OF this, of s]
  show "calls (playTTS apiKey text s) (nextCall s) = Fetching (currentPlaybackId s + 1)"
    "currentPlaybackId (playTTS apiKey text s) = currentPlaybackId s + 1"
    "requests (playTTS apiKey text s) = requests s @ [(nextCall s, text)]"
    "currentSource (playTTS apiKey text s) = None"
    "\<forall>source. currentSource s = Some source \<longrightarrow> source \<in> stoppedSources (playTTS apiKey text s)"
    unfolding eq by simp_all
  show "\<forall>call. call < nextCall s \<and> calls s call = Playing (currentPlaybackId s) \<longrightarrow>
      calls (ttsRun [PlayTTS apiKey text, PlaybackEnded call] s) call = Resolved False"
    unfolding ttsRun.simps ttsStep.simps eq by (simp add: playTTSEnded_def)
qed

lemma narrating_state:
  "calls (ttsRun narrating ttsInitial) 0 = Playing 1"
  "currentPlaybackId (ttsRun narrating ttsInitial) = 1"
  "currentSource (ttsRun narrating ttsInitial) = Some 0"
  "nextCall (ttsRun narrating ttsInitial) = 1"
  "stoppedSources (ttsRun narrating ttsInitial) = {}"
  "requests (ttsRun narrating ttsInitial) = [(0, ''hello'')]"
proof -
  define s where "s = playTTS someKey ''hello'' ttsInitial"
  have s: "calls s 0 = Fetching 1" "currentPlaybackId s = 1" "audioContext s = None"
    "nextCall s = 1" "stoppedSources s = {}" "requests s = [(0, ''hello'')]"
    unfolding s_def by (simp_all add: playTTS_issued someKey_valid ttsInitial_def)
  have c: "1 = currentPlaybackId s" using s(2) by simp
  have "getAudioContext (Inr exampleContext) s = Inr (exampleContext, s\<lparr>audioContext := Some exampleContext\<rparr>)"
    by (simp add: getAudioContext_def s)
  then have "playTTSResume 0 (Answered (Some (Text [0, 0, 0, 64]))) (Inr exampleContext) s =
      s\<lparr>audioContext := Some exampleContext, currentSource := Some 0,
        calls := (calls s)(0 := Playing 1)\<rparr>"
    unfolding playTTSResume_current [OF s(1) c] by (simp add: decode_chunk)
  then have r: "ttsRun narrating ttsInitial =
      s\<lparr>audioContext := Some exampleContext, currentSource := Some 0,
        calls := (calls s)(0 := Playing 1)\<rparr>"
    by (simp add: narrating_def spoken_def s_def)
  show "calls (ttsRun narrating ttsInitial) 0 = Playing 1"
    "currentPlaybackId (ttsRun narrating ttsInitial) = 1"
    "currentSource (ttsRun narrating ttsInitial) = Some 0"
    "nextCall (ttsRun narrating ttsInitial) = 1"
    "stoppedSources (ttsRun narrating ttsInitial) = {}"
    "requests (ttsRun narrating ttsInitial) = [(0, ''hello'')]"
    unfolding r using s by simp_all
qed

theorem playTTS_without_key_or_text_witness:
  "currentSource (ttsRun narrating ttsInitial) = Some 0 \<and>
   currentPlaybackId (ttsRun narrating ttsInitial) = 1 \<and>
   calls (playTTS None ''again'' (ttsRun narrating ttsInitial)) 1 = Resolved True \<and>
   currentPlaybackId (playTTS None ''again'' (ttsRun narrating ttsInitial)) = 1 \<and>
   currentSource (playTTS None ''again'' (ttsRun narrating ttsInitial)) = Some 0 \<and>
   requests (playTTS None ''again'' (ttsRun narrating ttsInitial)) = [(0, ''hello'')] \<and>
   calls (playTTS someKey [] (ttsRun narrating ttsInitial)) 1 = Resolved True \<and>
   currentPlaybackId (playTTS someKey [] (ttsRun narrating ttsInitial)) = 1 \<and>
   currentSource (playTTS someKey [] (ttsRun narrating ttsInitial)) = Some 0 \<and>
   calls (ttsRun [PlayTTS someKey [], PlaybackEnded 0] (ttsRun narrating ttsInitial)) 0 = Resolved True \<and>
   calls (playTTS someKey ''again'' (ttsRun narrating ttsInitial)) 1 = Fetching 2 \<and>
   currentPlaybackId (playTTS someKey ''again'' (ttsRun narrating ttsInitial)) = 2 \<and>
   currentSource (playTTS someKey ''again'' (ttsRun narrating ttsInitial)) = None \<and>
   0 \<in> stoppedSources (playTTS someKey ''again'' (ttsRun narrating ttsInitial)) \<and>
   requests (playTTS someKey ''again'' (ttsRun narrating ttsInitial)) = [(0, ''hello''), (1, ''again'')] \<and>
   calls (ttsRun [PlayTTS someKey ''again'', PlaybackEnded 0] (ttsRun narrating ttsInitial)) 0
     = Resolved False"
proof -
  define p where "p = ttsRun narrating ttsInitial"
  note st = narrating_state [folded p_def]
  have playing: "(0::nat) < nextCall p \<and> calls p 0 = Playing (currentPlaybackId p)"
    by (simp add: st)
  have "calls (playTTS None ''again'' p) 1 = Resolved True \<and>
    currentPlaybackId (playTTS None ''again'' p) = 1 \<and>
    currentSource (playTTS None ''again'' p) = Some 0 \<and>
    requests (playTTS None ''again'' p) = [(0, ''hello'')]"
    using playTTS_without_key_or_text [of None "''again''" p] by (simp add: st)
  moreover
  have "calls (playTTS someKey [] p) 1 = Resolved True \<and>
    currentPlaybackId (playTTS someKey [] p) = 1 \<and>
    currentSource (playTTS someKey [] p) = Some 0 \<and>
    calls (ttsRun [PlayTTS someKey [], PlaybackEnded 0] p) 0 = Resolved True"
    using playTTS_without_key_or_text [of someKey "[]" p] playing
    by (simp add: st del: ttsRun.simps)
  moreover
  have "calls (playTTS someKey ''again'' p) 1 = Fetching 2 \<and>
    currentPlaybackId (playTTS someKey ''again'' p) = 2 \<and>
    currentSource (playTTS someKey ''again'' p) = None \<and>
    0 \<in> stoppedSources (playTTS someKey ''again'' p) \<and>
    requests (playTTS someKey ''again'' p) = [(0, ''hello''), (1, ''again'')] \<and>
    calls (ttsRun [PlayTTS someKey ''again'', PlaybackEnded 0] p) 0 = Resolved False"
    using playTTS_without_key_or_text [of someKey "''again''" p] playing
    by (simp add: st someKey_valid del: ttsRun.simps)
  ultimately show ?thesis
    using st unfolding p_def by simp
qed

lemma getApiKey_not_empty: "getApiKey stored envKey \<noteq> Some []"
  by (simp add: getApiKey_def)

theorem newer_request_cancels_older_witness:
  "calls (ttsRun [PlayTTS someKey ''hello'', PlayTTS someKey ''world''] ttsInitial) 0 = Fetching 1 \<and>
   calls (ttsRun [PlayTTS someKey ''hello'', PlayTTS someKey ''world''] ttsInitial) 1 = Fetching 2 \<and>
   calls (ttsRun [PlayTTS someKey ''hello'', PlayTTS someKey ''world'',
                  Settled 0 spoken (Inr exampleContext)] ttsInitial) 0 = Resolved False \<and>
   calls (ttsRun [PlayTTS someKey ''hello'', PlayTTS someKey ''world'',
                  Settled 0 Rejected (Inr exampleContext),
                  Settled 1 spoken (Inr exampleContext),
                  PlaybackEnded 1] ttsInitial) 1 = Resolved True \<and>
   calls (ttsRun [PlayTTS someKey ''hello''] ttsInitial) 0 = Fetching 1 \<and>
   calls (ttsStep (Settled 0 spoken (Inr exampleContext))
            (ttsRun [PlayTTS someKey ''hello''] ttsInitial)) 0 = Playing 1 \<and>
   currentPlaybackId (ttsRun [PlayTTS someKey ''hello''] ttsInitial) = 1 \<and>
   calls (ttsRun narrating ttsInitial) 0 = Playing 1 \<and>
   calls (ttsStep (PlaybackEnded 0) (ttsRun narrating ttsInitial)) 0 = Resolved True \<and>
   currentPlaybackId (ttsRun narrating ttsInitial) = 1"
proof -
  let ?s2 = "ttsRun [PlayTTS someKey ''hello'', PlayTTS someKey ''world''] ttsInitial"
  define s1 where "s1 = ttsRun [PlayTTS someKey ''hello''] ttsInitial"
  define p where "p = ttsRun narrating ttsInitial"
  have n: "nextCall ttsInitial = 0" "currentPlaybackId ttsInitial = 0"
    by (simp_all add: ttsInitial_def)
  have t1: "''hello'' \<noteq> []" and t2: "''world'' \<noteq> []" by simp_all
  have e1: "list_all (\<lambda>e. \<not> about (nextCall ttsInitial) e) []" by simp
  have e2: "list_all (\<lambda>e. \<not> about (nextCall ttsInitial + 1) e \<and> \<not> supersedes e)
      [Settled 0 Rejected (Inr exampleContext)]"
    by (simp add: n)
  have e3: "list_all (\<lambda>e. \<not> about (nextCall ttsInitial + 1) e \<and> \<not> supersedes e) []" by simp
  have "audioContext (ttsRun [Settled 0 Rejected (Inr exampleContext)] ?s2) = None"
    by (simp add: playTTS_issued someKey_valid ttsInitial_def playTTSResume_def)
  then have pl: "playable (ttsRun [Settled 0 Rejected (Inr exampleContext)] ?s2)
      (Inr exampleContext) (Text [0, 0, 0, 64])"
    by (rule playable_fresh_context)
  note inst = newer_request_cancels_older [OF someKey_valid t1 t2 e1 e2 e3 pl]
  \<comment> \<open>the two requests\<close>
  from inst [of spoken "Inr exampleContext"]
  have scenario: "calls ?s2 0 = Fetching 1 \<and> calls ?s2 1 = Fetching 2 \<and>
    calls (ttsRun [PlayTTS someKey ''hello'', PlayTTS someKey ''world'',
                   Settled 0 spoken (Inr exampleContext)] ttsInitial) 0 = Resolved False \<and>
    calls (ttsRun [PlayTTS someKey ''hello'', PlayTTS someKey ''world'',
                   Settled 0 Rejected (Inr exampleContext),
                   Settled 1 spoken (Inr exampleContext),
                   PlaybackEnded 1] ttsInitial) 1 = Resolved True"
    unfolding Let_def n spoken_def by simp
  \<comment> \<open>a call that starts playing\<close>
  have f: "calls s1 0 = Fetching 1" unfolding s1_def by (rule one_request)
  have "ttsStep (Settled 0 spoken (Inr exampleContext)) s1 = p"
    unfolding s1_def p_def narrating_def by simp
  then have g: "calls (ttsStep (Settled 0 spoken (Inr exampleContext)) s1) 0 = Playing 1"
    unfolding p_def by (simp add: narrating_state)
  from inst [where t = s1 and e = "Settled 0 spoken (Inr exampleContext)" and call = 0
      and n = 1 and m = 1] f g
  have starts: "currentPlaybackId s1 = 1" by blast
  \<comment> \<open>a call that resolves to true\<close>
  have h: "calls p 0 = Playing 1" "0 < nextCall p"
    unfolding p_def by (simp_all add: narrating_state)
  then have i: "calls (ttsStep (PlaybackEnded 0) p) 0 = Resolved True"
    unfolding p_def by (simp add: playTTSEnded_def narrating_state)
  from inst [where t = p and e = "PlaybackEnded 0" and call = 0 and n = 1] h i
  have ends: "currentPlaybackId p = 1" by blast
  from scenario f g starts h(1) i ends show ?thesis
    unfolding s1_def p_def by blast
qed

end
